theory Spec2Isabelle
  imports Complex_Main "HOL-Library.Word" "HOL-Library.Sublist"
begin

unbundle bit_operations_syntax

section \<open>Common types\<close>

type_synonym byte = "8 word"

datatype esp_err_t =
    ESP_OK
  | ESP_FAIL
  | ESP_ERR_NO_MEM
  | ESP_ERR_INVALID_ARG
  | ESP_ERR_INVALID_STATE

section \<open>FreeRTOS queue primitives\<close>

text \<open>
  A FreeRTOS queue created by \<open>xQueueCreate(n, item_size)\<close> is a FIFO of at most \<open>n\<close>
  items.  With a zero block time \<open>xQueueSend\<close> appends at the tail and fails when the
  queue is full; \<open>xQueueReceive\<close> removes the head and fails when the queue is empty.
\<close>

definition xQueueSend :: "nat \<Rightarrow> 'a list \<Rightarrow> 'a \<Rightarrow> 'a list option" where
  "xQueueSend cap q x = (if length q < cap then Some (q @ [x]) else None)"

definition xQueueReceive :: "'a list \<Rightarrow> ('a \<times> 'a list) option" where
  "xQueueReceive q = (case q of [] \<Rightarrow> None | x # q' \<Rightarrow> Some (x, q'))"

definition uxQueueMessagesWaiting :: "'a list \<Rightarrow> nat" where
  "uxQueueMessagesWaiting q = length q"

section \<open>Network transport (audio streaming module)\<close>

text \<open>
  The translation of the audio streaming module: an \<open>audio_data_t\<close> is one queued
  buffer (a heap copy of the caller's bytes together with its size), and
  \<open>s_audio_stream\<close> is the module's only state.  The queue handle is the queue of
  capacity 50 that \<open>audio_streaming_init\<close> creates, so the record describes the
  module once \<open>audio_streaming_init\<close> has returned \<open>ESP_OK\<close>.
\<close>

record audio_data_t =
  data :: "byte list"
  size_bytes :: "32 word"

record audio_stream_config_t =
  server_ip :: string
  server_port :: "16 word"
  buffer_size :: "32 word"
  sample_rate :: "32 word"
  channels :: "8 word"
  bits_per_sample :: "8 word"

record audio_stream =
  config :: audio_stream_config_t
  socket_fd :: int
  is_running :: bool
  is_connected :: bool
  audio_queue :: "audio_data_t list"
  stream_task_handle :: bool

text \<open>
  The literal queue length passed to \<open>xQueueCreate\<close>, and the state in which
  \<open>audio_streaming_init(config)\<close> leaves the module when it returns \<open>ESP_OK\<close>.
\<close>

definition AUDIO_QUEUE_LENGTH :: nat where
  "AUDIO_QUEUE_LENGTH = 50"

definition audio_streaming_init :: "audio_stream_config_t \<Rightarrow> audio_stream" where
  "audio_streaming_init cfg =
     \<lparr>config = cfg, socket_fd = -1, is_running = False, is_connected = False,
      audio_queue = [], stream_task_handle = False\<rparr>"

text \<open>
  \<open>audio_streaming_start\<close>; the argument says whether \<open>xTaskCreate\<close> succeeds.
\<close>

definition audio_streaming_start :: "bool \<Rightarrow> audio_stream \<Rightarrow> esp_err_t \<times> audio_stream" where
  "audio_streaming_start task_ok s =
     (if is_running s then (ESP_OK, s)
      else if \<not> task_ok then (ESP_ERR_NO_MEM, s\<lparr>is_running := False\<rparr>)
      else (ESP_OK, s\<lparr>is_running := True, stream_task_handle := True\<rparr>))"

definition disconnect_from_server :: "audio_stream \<Rightarrow> audio_stream" where
  "disconnect_from_server s =
     (let s1 = (if socket_fd s \<ge> 0 then s\<lparr>socket_fd := -1\<rparr> else s)
      in s1\<lparr>is_connected := False\<rparr>)"

text \<open>
  The draining loop of \<open>audio_streaming_stop\<close>:
  \<open>while (xQueueReceive(q, &data, 0) == pdTRUE) free(data.data)\<close>.
\<close>

function drain_queue :: "'a list \<Rightarrow> 'a list" where
  "drain_queue q = (case xQueueReceive q of None \<Rightarrow> q | Some (x, q') \<Rightarrow> drain_queue q')"
  by pat_completeness auto
termination
  by (relation "measure length") (auto simp: xQueueReceive_def split: list.splits)

definition audio_streaming_stop :: "audio_stream \<Rightarrow> esp_err_t \<times> audio_stream" where
  "audio_streaming_stop s =
     (if \<not> is_running s then (ESP_OK, s)
      else
        let s1 = s\<lparr>is_running := False\<rparr>;
            s2 = (if stream_task_handle s1 then s1\<lparr>stream_task_handle := False\<rparr> else s1);
            s3 = disconnect_from_server s2
        in (ESP_OK, s3\<lparr>audio_queue := drain_queue (audio_queue s3)\<rparr>))"

text \<open>
  The eviction loop of \<open>audio_streaming_send\<close>:
  \<open>for (int i = 0; i < 5 && xQueueReceive(q, &old_data, 0) == pdTRUE; i++) free(old_data.data)\<close>.
\<close>

function queue_cleanup :: "nat \<Rightarrow> 'a list \<Rightarrow> 'a list" where
  "queue_cleanup i q =
     (if i < 5 then (case xQueueReceive q of None \<Rightarrow> q | Some (x, q') \<Rightarrow> queue_cleanup (i + 1) q')
      else q)"
  by pat_completeness auto
termination
  by (relation "measure (\<lambda>(i, q). 5 - i)") auto

text \<open>
  \<open>audio_streaming_send(data, size)\<close>.  \<open>dat\<close> is \<open>None\<close> for a null pointer and
  otherwise the bytes behind the pointer (at least \<open>size\<close> of them); \<open>malloc_ok\<close> says
  whether \<open>malloc(size)\<close> succeeds.  \<open>send_precheck\<close> is the high-watermark block at the
  head of the function, with the source's test \<open>queue_length > (50 * 8 / 10)\<close>.
\<close>

definition send_precheck :: "'a list \<Rightarrow> 'a list" where
  "send_precheck q =
     (let queue_length = uxQueueMessagesWaiting q
      in if queue_length > 50 * 8 div 10 then queue_cleanup 0 q else q)"

definition audio_streaming_send ::
  "bool \<Rightarrow> byte list option \<Rightarrow> 32 word \<Rightarrow> audio_stream \<Rightarrow> esp_err_t \<times> audio_stream" where
  "audio_streaming_send malloc_ok dat sz s =
     (if \<not> is_running s \<or> dat = None \<or> sz = 0 then (ESP_ERR_INVALID_ARG, s)
      else
        let q1 = send_precheck (audio_queue s);
            s1 = s\<lparr>audio_queue := q1\<rparr>
        in if \<not> malloc_ok then (ESP_ERR_NO_MEM, s1)
           else
             let audio_data = \<lparr>data = take (unat sz) (the dat), size_bytes = sz\<rparr>
             in (case xQueueSend AUDIO_QUEUE_LENGTH q1 audio_data of
                   None \<Rightarrow> (ESP_ERR_NO_MEM, s1)
                 | Some q2 \<Rightarrow> (ESP_OK, s1\<lparr>audio_queue := q2\<rparr>)))"

definition audio_streaming_is_connected :: "audio_stream \<Rightarrow> bool" where
  "audio_streaming_is_connected s = is_connected s"

subsection \<open>The streaming task\<close>

text \<open>
  What the task does to the outside world, in order: the sockets it opens and closes, the
  two kinds of \<open>send\<close> calls (the handshake header in \<open>connect_to_server\<close>, a queued
  packet in the task loop) with the value \<open>send\<close> returned, and its \<open>vTaskDelay\<close> calls
  in milliseconds.
\<close>

datatype net_event =
    Ev_socket int
  | Ev_close int
  | Ev_handshake string int
  | Ev_packet audio_data_t int
  | Ev_delay nat

text \<open>
  The answers of the environment during one pass of the task loop: the return values of
  \<open>socket\<close>, \<open>inet_pton\<close>, \<open>connect\<close>, of the header's \<open>send\<close> and of the packet's
  \<open>send\<close>.
\<close>

record task_env =
  socket_ret :: int
  inet_pton_ret :: int
  connect_ret :: int
  header_send_ret :: int
  packet_send_ret :: int

text \<open>\<open>printf\<close>'s unsigned decimal conversion (\<open>PRIu32\<close>, \<open>PRIu8\<close>).\<close>

definition digit_char :: "nat \<Rightarrow> char" where
  "digit_char d = ''0123456789'' ! d"

function print_unsigned :: "nat \<Rightarrow> string" where
  "print_unsigned n =
     (if n < 10 then [digit_char n] else print_unsigned (n div 10) @ [digit_char (n mod 10)])"
  by pat_completeness auto
termination
  by (relation "measure id") auto

text \<open>The text \<open>snprintf\<close> formats in \<open>connect_to_server\<close>, before any truncation.\<close>

definition stream_header_text :: "audio_stream_config_t \<Rightarrow> string" where
  "stream_header_text cfg =
     ''AUDIO_STREAM'' @ [CHR 0x0A] @
     ''sample_rate='' @ print_unsigned (unat (sample_rate cfg)) @ [CHR 0x0A] @
     ''channels='' @ print_unsigned (unat (channels cfg)) @ [CHR 0x0A] @
     ''bits_per_sample='' @ print_unsigned (unat (bits_per_sample cfg)) @ [CHR 0x0A] @
     ''codec='' @ (if sample_rate cfg = 16000 then ''MSBC'' else ''CVSD'') @ [CHR 0x0A] @
     [CHR 0x0A]"

text \<open>
  \<open>connect_to_server\<close>.  \<open>snprintf(header, sizeof(header), ...)\<close> stores at most 255
  characters of the text in the 256-byte buffer.
\<close>

definition connect_to_server ::
  "task_env \<Rightarrow> audio_stream \<Rightarrow> esp_err_t \<times> audio_stream \<times> net_event list" where
  "connect_to_server env s =
     (let fd = socket_ret env; s1 = s\<lparr>socket_fd := fd\<rparr>
      in if fd < 0 then (ESP_FAIL, s1, [Ev_socket fd])
         else if inet_pton_ret env \<le> 0
           then (ESP_FAIL, s1\<lparr>socket_fd := -1\<rparr>, [Ev_socket fd, Ev_close fd])
         else if connect_ret env < 0
           then (ESP_FAIL, s1\<lparr>socket_fd := -1\<rparr>, [Ev_socket fd, Ev_close fd])
         else
           let header = take 255 (stream_header_text (config s1));
               sent = header_send_ret env
           in if sent < 0
                then (ESP_FAIL, s1\<lparr>socket_fd := -1\<rparr>,
                      [Ev_socket fd, Ev_handshake header sent, Ev_close fd])
              else (ESP_OK, s1\<lparr>is_connected := True\<rparr>,
                    [Ev_socket fd, Ev_handshake header sent]))"

definition disconnect_events :: "audio_stream \<Rightarrow> net_event list" where
  "disconnect_events s = (if socket_fd s \<ge> 0 then [Ev_close (socket_fd s)] else [])"

text \<open>
  The second half of the loop body: \<open>xQueueReceive\<close> with a one-second timeout, then
  \<open>send\<close> of the packet.  A negative return value disconnects; a short count is only
  logged.  The packet's buffer is freed either way.
\<close>

definition task_forward ::
  "task_env \<Rightarrow> audio_stream \<Rightarrow> audio_stream \<times> net_event list" where
  "task_forward env s =
     (case xQueueReceive (audio_queue s) of
        None \<Rightarrow> (s, [])
      | Some (audio_data, q') \<Rightarrow>
          let s1 = s\<lparr>audio_queue := q'\<rparr>;
              sent = packet_send_ret env
          in if sent < 0
               then (disconnect_from_server s1, Ev_packet audio_data sent # disconnect_events s1)
             else (s1, [Ev_packet audio_data sent]))"

text \<open>
  One test of the loop condition of \<open>audio_streaming_task\<close> followed by one pass of the
  body, or by the code after the loop when \<open>is_running\<close> is false.
\<close>

definition audio_streaming_task ::
  "task_env \<Rightarrow> audio_stream \<Rightarrow> audio_stream \<times> net_event list" where
  "audio_streaming_task env s =
     (if is_running s then
        (if \<not> is_connected s then
           (case connect_to_server env s of
              (ESP_OK, s1, evs) \<Rightarrow> (let (s2, evs2) = task_forward env s1 in (s2, evs @ evs2))
            | (_, s1, evs) \<Rightarrow> (s1, evs @ [Ev_delay 5000]))
         else task_forward env s)
      else (disconnect_from_server s, disconnect_events s))"

text \<open>
  The calls that reach the module, one at a time: a producer's \<open>audio_streaming_send\<close>,
  a pass of the task, \<open>audio_streaming_start\<close> and \<open>audio_streaming_stop\<close>.
\<close>

datatype stream_op =
    Op_send bool "byte list option" "32 word"
  | Op_task task_env
  | Op_start bool
  | Op_stop

fun stream_step :: "stream_op \<Rightarrow> audio_stream \<Rightarrow> audio_stream \<times> net_event list" where
  "stream_step (Op_send malloc_ok dat sz) s = (snd (audio_streaming_send malloc_ok dat sz s), [])"
| "stream_step (Op_task env) s = audio_streaming_task env s"
| "stream_step (Op_start task_ok) s = (snd (audio_streaming_start task_ok s), [])"
| "stream_step Op_stop s =
     (snd (audio_streaming_stop s), if is_running s then disconnect_events s else [])"

fun stream_run :: "stream_op list \<Rightarrow> audio_stream \<Rightarrow> audio_stream \<times> net_event list" where
  "stream_run [] s = (s, [])"
| "stream_run (op # ops) s =
     (let (s1, evs1) = stream_step op s; (s2, evs2) = stream_run ops s1 in (s2, evs1 @ evs2))"

subsection \<open>Scenarios on the transmit queue\<close>

text \<open>
  A producer that pushes whole buffers: \<open>push_packet p\<close> is the call
  \<open>audio_streaming_send(p, length p)\<close> with a successful \<open>malloc\<close>, \<open>push_all\<close> pushes a
  list of buffers in order, and \<open>as_item p\<close> is the queue item such a call stores.
  A buffer is valid for the call when it is not empty and its length fits \<open>uint32_t\<close>.
  \<open>evicted_on_push q\<close> counts the items the high-watermark block frees when a push finds
  the queue \<open>q\<close>.
\<close>

definition push_packet :: "byte list \<Rightarrow> audio_stream \<Rightarrow> audio_stream" where
  "push_packet p s = snd (audio_streaming_send True (Some p) (of_nat (length p)) s)"

definition push_all :: "byte list list \<Rightarrow> audio_stream \<Rightarrow> audio_stream" where
  "push_all ps s = foldl (\<lambda>s p. push_packet p s) s ps"

definition valid_packet :: "byte list \<Rightarrow> bool" where
  "valid_packet p = (p \<noteq> [] \<and> length p < 2 ^ 32)"

definition as_item :: "byte list \<Rightarrow> audio_data_t" where
  "as_item p = \<lparr>data = p, size_bytes = of_nat (length p)\<rparr>"

definition evicted_on_push :: "'a list \<Rightarrow> nat" where
  "evicted_on_push q = length q - length (send_precheck q)"

text \<open>A started module with an empty queue, and 45 one-byte packets numbered 1 to 45.\<close>

definition test_config :: audio_stream_config_t where
  "test_config =
     \<lparr>server_ip = ''192.168.1.10'', server_port = 8888, buffer_size = 4096,
      sample_rate = 8000, channels = 1, bits_per_sample = 16\<rparr>"

definition test_stream :: audio_stream where
  "test_stream = snd (audio_streaming_start True (audio_streaming_init test_config))"

definition test_packets :: "byte list list" where
  "test_packets = map (\<lambda>i. [of_nat i]) [1..<46]"

text \<open>
  Two readings of a run, used to state the queue's ordering: the packets the task handed
  to \<open>send\<close>, in the order of the calls, and the queue items the producers' calls offered,
  in the order of the calls (a call with a null pointer offers nothing).
\<close>

fun sent_packets :: "net_event list \<Rightarrow> audio_data_t list" where
  "sent_packets [] = []"
| "sent_packets (Ev_packet x r # evs) = x # sent_packets evs"
| "sent_packets (_ # evs) = sent_packets evs"

fun offered :: "stream_op list \<Rightarrow> audio_data_t list" where
  "offered [] = []"
| "offered (Op_send malloc_ok (Some d) sz # ops) =
     \<lparr>data = take (unat sz) d, size_bytes = sz\<rparr> # offered ops"
| "offered (_ # ops) = offered ops"

text \<open>
  An environment in which no socket can be opened, one in which everything succeeds, and
  a short run: two pushes, a pass of the task while the network is down, a third push.
\<close>

definition test_env_down :: task_env where
  "test_env_down =
     \<lparr>socket_ret = -1, inet_pton_ret = 1, connect_ret = 0, header_send_ret = 0,
      packet_send_ret = 0\<rparr>"

definition test_env_up :: task_env where
  "test_env_up =
     \<lparr>socket_ret = 54, inet_pton_ret = 1, connect_ret = 0, header_send_ret = 72,
      packet_send_ret = 1\<rparr>"

definition test_ops :: "stream_op list" where
  "test_ops =
     [Op_send True (Some [7]) 1, Op_send True (Some [9]) 1, Op_task test_env_down,
      Op_send True (Some [11]) 1]"

subsection \<open>The connection as the remote sink sees it\<close>






section \<open>Hands-free audio path\<close>

text \<open>
  The file-scope variables and the function-local statics of the hands-free application
  file, as one record.  The ring buffer handle \<open>s_m_rb\<close> is \<open>None\<close> for \<open>NULL\<close> and
  otherwise the number of bytes waiting in the byte buffer; the other handles are
  \<open>True\<close> when they are not \<open>NULL\<close>.  \<open>mic_level_timer_running\<close> is the state of the timer
  behind \<open>s_mic_level_timer\<close>.  The signed counters \<open>s_data_num\<close>, \<open>packet_count\<close>,
  \<open>send_counter\<close>, \<open>consecutive_failures\<close>, \<open>s_mic_level_samples\<close> and the 64-bit
  \<open>s_mic_level_sum\<close> are mathematical integers: they stay far from their bounds, the
  sample count and the sum being reset by every report.
\<close>

datatype esp_hf_audio_state_t =
    ESP_HF_AUDIO_STATE_DISCONNECTED
  | ESP_HF_AUDIO_STATE_CONNECTING
  | ESP_HF_AUDIO_STATE_CONNECTED
  | ESP_HF_AUDIO_STATE_CONNECTED_MSBC

record hf_state =
  s_data_num :: int
  s_m_rb :: "nat option"
  s_time_new :: "64 word"
  s_time_old :: "64 word"
  s_periodic_timer :: bool
  s_last_enter_time :: "64 word"
  s_now_enter_time :: "64 word"
  s_us_duration :: "64 word"
  s_send_data_Semaphore :: bool
  s_bt_app_send_data_task_handler :: bool
  s_audio_code :: esp_hf_audio_state_t
  s_incoming_cb_counter :: "32 word"
  s_first_packet_time_us :: "64 word"
  s_last_log_time_us :: "64 word"
  s_lost_seq_estimate :: "32 word"
  s_prev_header_seq :: "32 word"
  s_stream_seq :: "32 word"
  s_mic_level_monitoring :: bool
  s_mic_level_samples :: int
  s_mic_level_sum :: int
  s_mic_level_max :: int
  s_mic_level_timer :: bool
  mic_level_timer_running :: bool
  packet_count :: int
  failed_sends :: "32 word"
  latency_hint_logged :: bool
  send_counter :: int
  consecutive_failures :: int
  last_successful_send :: "64 word"
  last_frame_time :: "64 word"

text \<open>The values the variables have when the program starts (all zero).\<close>

definition hf_startup :: hf_state where
  "hf_startup =
     \<lparr>s_data_num = 0, s_m_rb = None, s_time_new = 0, s_time_old = 0,
      s_periodic_timer = False, s_last_enter_time = 0, s_now_enter_time = 0,
      s_us_duration = 0, s_send_data_Semaphore = False,
      s_bt_app_send_data_task_handler = False,
      s_audio_code = ESP_HF_AUDIO_STATE_DISCONNECTED, s_incoming_cb_counter = 0,
      s_first_packet_time_us = 0, s_last_log_time_us = 0, s_lost_seq_estimate = 0,
      s_prev_header_seq = 0, s_stream_seq = 0, s_mic_level_monitoring = False,
      s_mic_level_samples = 0, s_mic_level_sum = 0, s_mic_level_max = 0,
      s_mic_level_timer = False, mic_level_timer_running = False, packet_count = 0,
      failed_sends = 0, latency_hint_logged = False, send_counter = 0,
      consecutive_failures = 0, last_successful_send = 0, last_frame_time = 0\<rparr>"

subsection \<open>Signal level monitor\<close>

text \<open>
  The payload read as little-endian signed 16-bit samples, and
  \<open>int16_t abs_sample = abs(sample)\<close>: the absolute value is computed in \<open>int\<close> and
  narrowed back to 16 bits.
\<close>

fun le16_samples :: "byte list \<Rightarrow> 16 word list" where
  "le16_samples (lo # hi # bs) = (ucast lo OR push_bit 8 (ucast hi)) # le16_samples bs"
| "le16_samples _ = []"

definition abs_sample_of :: "16 word \<Rightarrow> int" where
  "abs_sample_of sample = sint (word_of_int \<bar>sint sample\<bar> :: 16 word)"

fun mic_level_loop :: "16 word list \<Rightarrow> hf_state \<Rightarrow> hf_state" where
  "mic_level_loop [] s = s"
| "mic_level_loop (sample # rest) s =
     (let abs_sample = abs_sample_of sample;
          s1 = s\<lparr>s_mic_level_sum := s_mic_level_sum s + abs_sample,
                 s_mic_level_samples := s_mic_level_samples s + 1\<rparr>;
          s2 = (if abs_sample > s_mic_level_max s1 then s1\<lparr>s_mic_level_max := abs_sample\<rparr>
                else s1)
      in mic_level_loop rest s2)"

definition analyze_mic_level :: "byte list \<Rightarrow> 32 word \<Rightarrow> hf_state \<Rightarrow> hf_state" where
  "analyze_mic_level audio_buffer sz s =
     (if \<not> s_mic_level_monitoring s then s
      else
        let num_samples = unat sz div 2;
            s1 = mic_level_loop (take num_samples (le16_samples audio_buffer)) s
        in s1\<lparr>packet_count := packet_count s1 + 1\<rparr>)"

text \<open>
  C's integer division truncates towards zero and is undefined for a zero divisor:
  \<open>c_div\<close> is \<open>None\<close> there.
\<close>

definition c_div :: "int \<Rightarrow> int \<Rightarrow> int option" where
  "c_div a b = (if b = 0 then None else Some (sgn a * sgn b * (\<bar>a\<bar> div \<bar>b\<bar>)))"

text \<open>
  The \<open>float\<close> values of the report.  A finite value is a real number (rounding is not
  modelled); \<open>log10f\<close> of zero is minus infinity and of a negative number is not a number;
  a comparison with a NaN is false.
\<close>

datatype c_float = Float_finite real | Float_minus_inf | Float_nan

definition log10f :: "real \<Rightarrow> c_float" where
  "log10f x = (if x < 0 then Float_nan else if x = 0 then Float_minus_inf
               else Float_finite (log 10 x))"

fun float_times :: "real \<Rightarrow> c_float \<Rightarrow> c_float" where
  "float_times c (Float_finite x) = Float_finite (c * x)"
| "float_times c Float_minus_inf =
     (if c > 0 then Float_minus_inf else Float_nan)"
| "float_times c Float_nan = Float_nan"

fun float_less :: "c_float \<Rightarrow> real \<Rightarrow> bool" where
  "float_less (Float_finite x) y = (x < y)"
| "float_less Float_minus_inf y = True"
| "float_less Float_nan y = False"

record mic_report =
  report_avg :: int
  report_max :: int
  report_db :: c_float
  report_samples :: int

datatype report_result = No_report | Mic_level mic_report | Division_by_zero

definition mic_level_report_timer_cb :: "hf_state \<Rightarrow> report_result \<times> hf_state" where
  "mic_level_report_timer_cb s =
     (if \<not> s_mic_level_monitoring s \<or> s_mic_level_samples s = 0 then (No_report, s)
      else
        (case c_div (s_mic_level_sum s) (s_mic_level_samples s) of
           None \<Rightarrow> (Division_by_zero, s)
         | Some q \<Rightarrow>
             let average = sint (word_of_int q :: 16 word);
                 db0 = float_times 20 (log10f (real_of_int (s_mic_level_max s) / 32767));
                 db_level = (if float_less db0 (- 60) then Float_finite (- 60) else db0)
             in (Mic_level \<lparr>report_avg = average, report_max = s_mic_level_max s,
                            report_db = db_level, report_samples = s_mic_level_samples s\<rparr>,
                 s\<lparr>s_mic_level_sum := 0, s_mic_level_samples := 0, s_mic_level_max := 0\<rparr>)))"

definition bt_app_start_mic_level_monitoring :: "hf_state \<Rightarrow> hf_state" where
  "bt_app_start_mic_level_monitoring s =
     (if s_mic_level_monitoring s then s
      else s\<lparr>s_mic_level_monitoring := True, s_mic_level_sum := 0, s_mic_level_samples := 0,
             s_mic_level_max := 0, s_mic_level_timer := True,
             mic_level_timer_running := True\<rparr>)"

definition bt_app_stop_mic_level_monitoring :: "hf_state \<Rightarrow> hf_state" where
  "bt_app_stop_mic_level_monitoring s =
     (if \<not> s_mic_level_monitoring s then s
      else
        let s1 = s\<lparr>s_mic_level_monitoring := False\<rparr>
        in if s_mic_level_timer s1 then s1\<lparr>mic_level_timer_running := False\<rparr> else s1)"

subsection \<open>Packetizer\<close>

record stream_packet_header_t =
  magic :: "32 word"
  seq :: "32 word"
  timestamp_us :: "64 word"
  payload_len :: "16 word"
  codec :: "16 word"

definition STREAM_PACKET_MAGIC :: "32 word" where
  "STREAM_PACKET_MAGIC = 0x48445541"

definition STREAM_CODEC_CVSD :: "16 word" where
  "STREAM_CODEC_CVSD = 1"

definition STREAM_CODEC_MSBC :: "16 word" where
  "STREAM_CODEC_MSBC = 2"

text \<open>The packed header as it lies in memory on the little-endian target (20 bytes).\<close>

definition le16 :: "16 word \<Rightarrow> byte list" where
  "le16 w = [ucast w, ucast (drop_bit 8 w)]"

definition le32 :: "32 word \<Rightarrow> byte list" where
  "le32 w = [ucast w, ucast (drop_bit 8 w), ucast (drop_bit 16 w), ucast (drop_bit 24 w)]"

definition le64 :: "64 word \<Rightarrow> byte list" where
  "le64 w =
     [ucast w, ucast (drop_bit 8 w), ucast (drop_bit 16 w), ucast (drop_bit 24 w),
      ucast (drop_bit 32 w), ucast (drop_bit 40 w), ucast (drop_bit 48 w),
      ucast (drop_bit 56 w)]"

definition header_bytes :: "stream_packet_header_t \<Rightarrow> byte list" where
  "header_bytes h =
     le32 (magic h) @ le32 (seq h) @ le64 (timestamp_us h) @ le16 (payload_len h) @
     le16 (codec h)"

definition print_speed :: "hf_state \<Rightarrow> hf_state" where
  "print_speed s = s\<lparr>s_data_num := 0, s_time_old := s_time_new s\<rparr>"

text \<open>
  What one call of the incoming-data callback finds outside the program: the three
  readings of \<open>esp_timer_get_time\<close> that are stored (at the first call ever, at entry, in
  the header), and whether \<open>osi_malloc\<close> for the packet and \<open>malloc\<close> inside
  \<open>audio_streaming_send\<close> succeed.
\<close>

record cb_env =
  time_first :: "64 word"
  time_entry :: "64 word"
  time_header :: "64 word"
  packet_alloc_ok :: bool
  copy_alloc_ok :: bool

text \<open>
  \<open>bt_app_hf_incoming_cb(buf, sz)\<close> on the state of this file and of the streaming module.
  \<open>buf\<close> is \<open>None\<close> for a null pointer.  Besides the two states the result carries the
  header the call stamped, if it got that far.
\<close>

definition bt_app_hf_incoming_cb ::
  "cb_env \<Rightarrow> byte list option \<Rightarrow> 32 word \<Rightarrow> hf_state \<times> audio_stream \<Rightarrow>
   stream_packet_header_t option \<times> hf_state \<times> audio_stream" where
  "bt_app_hf_incoming_cb env buf sz = (\<lambda>(s, st).
     let s1 = s\<lparr>s_incoming_cb_counter := s_incoming_cb_counter s + 1\<rparr>;
         s2 = (if s_first_packet_time_us s1 = 0
               then s1\<lparr>s_first_packet_time_us := time_first env,
                       s_last_log_time_us := time_first env\<rparr>
               else s1)
     in if sz = 0 \<or> buf = None then (None, s2, st)
        else
          let s3 = s2\<lparr>s_time_new := time_entry env, s_data_num := s_data_num s2 + uint sz\<rparr>;
              s4 = analyze_mic_level (the buf) sz s3
          in if \<not> audio_streaming_is_connected st
               then (None, s4\<lparr>failed_sends := failed_sends s4 + 1\<rparr>, st)
             else
               let seq_to_send = s_stream_seq s4;
                   header = \<lparr>magic = STREAM_PACKET_MAGIC, seq = s_stream_seq s4,
                             timestamp_us = time_header env, payload_len = ucast sz,
                             codec = (if s_audio_code s4 = ESP_HF_AUDIO_STATE_CONNECTED_MSBC
                                      then STREAM_CODEC_MSBC else STREAM_CODEC_CVSD)\<rparr>;
                   s5 = s4\<lparr>s_stream_seq := s_stream_seq s4 + 1\<rparr>;
                   s6 = (if s_prev_header_seq s5 \<noteq> 0 \<and> seq_to_send \<noteq> s_prev_header_seq s5 + 1
                         then s5\<lparr>s_lost_seq_estimate :=
                                   s_lost_seq_estimate s5 + (seq_to_send - (s_prev_header_seq s5 + 1))\<rparr>
                         else s5);
                   s7 = s6\<lparr>s_prev_header_seq := seq_to_send\<rparr>;
                   packet_size = 20 + sz
               in if \<not> packet_alloc_ok env
                    then (Some header, s7\<lparr>failed_sends := failed_sends s7 + 1\<rparr>, st)
                  else
                    let packet = header_bytes header @ take (unat sz) (the buf);
                        (stream_result, st1) =
                          audio_streaming_send (copy_alloc_ok env) (Some packet) packet_size st;
                        s8 = (if stream_result \<noteq> ESP_OK
                              then s7\<lparr>failed_sends := failed_sends s7 + 1\<rparr> else s7);
                        s9 = s8\<lparr>latency_hint_logged := True\<rparr>;
                        s10 = (if s_time_new s9 - s_time_old s9 \<ge> 3000000 then print_speed s9
                               else s9)
                    in (Some header, s10, st1))"

subsection \<open>Outbound pacing generator\<close>

definition ESP_HFP_RINGBUF_SIZE :: nat where
  "ESP_HFP_RINGBUF_SIZE = 3600"

definition PCM_BLOCK_DURATION_US :: nat where
  "PCM_BLOCK_DURATION_US = 7500"

definition WBS_PCM_SAMPLING_RATE_KHZ :: nat where
  "WBS_PCM_SAMPLING_RATE_KHZ = 16"

definition PCM_SAMPLING_RATE_KHZ :: nat where
  "PCM_SAMPLING_RATE_KHZ = 8"

definition BYTES_PER_SAMPLE :: nat where
  "BYTES_PER_SAMPLE = 2"

definition WBS_PCM_INPUT_DATA_SIZE :: nat where
  "WBS_PCM_INPUT_DATA_SIZE =
     WBS_PCM_SAMPLING_RATE_KHZ * PCM_BLOCK_DURATION_US div 1000 * BYTES_PER_SAMPLE"

definition PCM_INPUT_DATA_SIZE :: nat where
  "PCM_INPUT_DATA_SIZE = PCM_SAMPLING_RATE_KHZ * PCM_BLOCK_DURATION_US div 1000 * BYTES_PER_SAMPLE"

definition PCM_GENERATOR_TICK_US :: nat where
  "PCM_GENERATOR_TICK_US = 4000"

text \<open>
  One wake-up of \<open>bt_app_send_data_task\<close> by the semaphore, that is one pass of the body
  of its loop.  The environment gives the reading of \<open>esp_timer_get_time\<close> at entry and
  after a successful push, and whether \<open>osi_malloc\<close> succeeds.  \<open>xRingbufferSend\<close> on the
  byte buffer succeeds when the frame fits beside the bytes already waiting; on a null
  handle the call cannot be made at all (\<open>Tick_no_ringbuf\<close>).  The result says where the
  pass ended and whether it called \<open>esp_hf_ag_outgoing_data_ready\<close>.
\<close>

record tick_env =
  tick_now :: "64 word"
  tick_after_send :: "64 word"
  tick_alloc_ok :: bool

datatype tick_result =
    Tick_audio_down
  | Tick_too_early
  | Tick_backoff
  | Tick_no_mem
  | Tick_no_ringbuf
  | Tick_push_failed bool
  | Tick_pushed bool

definition bt_app_send_data_task :: "tick_env \<Rightarrow> hf_state \<Rightarrow> tick_result \<times> hf_state" where
  "bt_app_send_data_task env s =
     (let s1 = s\<lparr>send_counter := send_counter s + 1\<rparr>
      in if s_audio_code s1 \<noteq> ESP_HF_AUDIO_STATE_CONNECTED \<and>
            s_audio_code s1 \<noteq> ESP_HF_AUDIO_STATE_CONNECTED_MSBC
           then (Tick_audio_down, s1)
         else
           let s2 = s1\<lparr>s_now_enter_time := tick_now env\<rparr>;
               s3 = s2\<lparr>s_us_duration := s_now_enter_time s2 - s_last_enter_time s2\<rparr>;
               target_interval = (of_nat PCM_BLOCK_DURATION_US :: 64 word)
           in if last_frame_time s3 \<noteq> 0 \<and>
                 s_now_enter_time s3 - last_frame_time s3 < target_interval
                then (Tick_too_early, s3)
              else
                let s4 = s3\<lparr>last_frame_time := s_now_enter_time s3\<rparr>;
                    frame_data_num =
                      (if s_audio_code s4 = ESP_HF_AUDIO_STATE_CONNECTED_MSBC
                       then WBS_PCM_INPUT_DATA_SIZE else PCM_INPUT_DATA_SIZE);
                    s5 = s4\<lparr>s_last_enter_time := s_now_enter_time s4\<rparr>
                in if consecutive_failures s5 > 3 \<and> send_counter s5 mod 2 = 0
                     then (Tick_backoff, s5\<lparr>consecutive_failures := 0\<rparr>)
                   else if \<not> tick_alloc_ok env
                     then (Tick_no_mem, s5\<lparr>consecutive_failures := consecutive_failures s5 + 1\<rparr>)
                   else
                     (case s_m_rb s5 of
                        None \<Rightarrow> (Tick_no_ringbuf, s5)
                      | Some waiting \<Rightarrow>
                          let done = (waiting + frame_data_num \<le> ESP_HFP_RINGBUF_SIZE);
                              item_size = (if done then waiting + frame_data_num else waiting);
                              s6 = (if \<not> done
                                    then s5\<lparr>consecutive_failures := consecutive_failures s5 + 1\<rparr>
                                    else s5\<lparr>consecutive_failures := 0,
                                            last_successful_send := tick_after_send env,
                                            s_m_rb := Some item_size\<rparr>);
                              required_size =
                                (if s_audio_code s6 = ESP_HF_AUDIO_STATE_CONNECTED_MSBC
                                 then WBS_PCM_INPUT_DATA_SIZE else PCM_INPUT_DATA_SIZE);
                              ready = (item_size \<ge> required_size \<and>
                                       item_size < required_size * 3)
                          in (if done then Tick_pushed ready else Tick_push_failed ready, s6)))"

text \<open>
  \<open>bt_app_send_data\<close> sets the generator up when the audio link comes up, and
  \<open>bt_app_send_data_shut_down\<close> tears it down when the link goes down.
\<close>

definition bt_app_send_data :: "64 word \<Rightarrow> hf_state \<Rightarrow> hf_state" where
  "bt_app_send_data now s =
     s\<lparr>s_send_data_Semaphore := True, s_bt_app_send_data_task_handler := True,
       s_m_rb := Some 0, s_periodic_timer := True, s_last_enter_time := now\<rparr>"

definition bt_app_send_data_shut_down :: "hf_state \<Rightarrow> hf_state" where
  "bt_app_send_data_shut_down s =
     (let s1 = s\<lparr>s_stream_seq := 0\<rparr>;
          s2 = bt_app_stop_mic_level_monitoring s1;
          s3 = (if s_periodic_timer s2 then s2\<lparr>s_periodic_timer := False\<rparr> else s2);
          s4 = (case s_m_rb s3 of None \<Rightarrow> s3 | Some waiting \<Rightarrow> s3\<lparr>s_m_rb := Some 0\<rparr>);
          s5 = (if s_bt_app_send_data_task_handler s4
                then s4\<lparr>s_bt_app_send_data_task_handler := False\<rparr> else s4);
          s6 = (if s_send_data_Semaphore s5 then s5\<lparr>s_send_data_Semaphore := False\<rparr> else s5)
      in (case s_m_rb s6 of None \<Rightarrow> s6 | Some waiting \<Rightarrow> s6\<lparr>s_m_rb := None\<rparr>))"

subsection \<open>Audio link events\<close>

text \<open>
  The flags of the command module that follow the audio link, with the three functions
  that update them, and the \<open>ESP_HF_AUDIO_STATE_EVT\<close> case of \<open>bt_app_hf_cb\<close> (built with
  the audio data path over HCI).  Its arguments are the two readings of
  \<open>esp_timer_get_time\<close> taken when the link comes up, the value of
  \<open>is_microphone_monitoring_active()\<close>, and the state the event reports.  The calls into
  the hands-free API are left out.
\<close>

record audio_flags =
  g_audio_connecting :: bool
  g_audio_connected :: bool

definition hf_audio_state_connecting :: "audio_flags \<Rightarrow> audio_flags" where
  "hf_audio_state_connecting f = f\<lparr>g_audio_connecting := True, g_audio_connected := False\<rparr>"

definition hf_audio_state_connected :: "audio_flags \<times> hf_state \<Rightarrow> audio_flags \<times> hf_state" where
  "hf_audio_state_connected = (\<lambda>(f, s).
     (f\<lparr>g_audio_connecting := False, g_audio_connected := True\<rparr>,
      bt_app_start_mic_level_monitoring s))"

definition hf_audio_state_disconnected :: "audio_flags \<times> hf_state \<Rightarrow> audio_flags \<times> hf_state" where
  "hf_audio_state_disconnected = (\<lambda>(f, s).
     (f\<lparr>g_audio_connecting := False, g_audio_connected := False\<rparr>,
      bt_app_stop_mic_level_monitoring s))"

definition audio_state_evt ::
  "64 word \<Rightarrow> 64 word \<Rightarrow> bool \<Rightarrow> esp_hf_audio_state_t \<Rightarrow> audio_flags \<times> hf_state \<Rightarrow>
   audio_flags \<times> hf_state" where
  "audio_state_evt now1 now2 mic_active state = (\<lambda>(f, s).
     let s1 = (if state = ESP_HF_AUDIO_STATE_DISCONNECTED then bt_app_send_data_shut_down s
               else s);
         (f2, s2) =
           (if state = ESP_HF_AUDIO_STATE_CONNECTING then (hf_audio_state_connecting f, s1)
            else if state = ESP_HF_AUDIO_STATE_CONNECTED \<or>
                    state = ESP_HF_AUDIO_STATE_CONNECTED_MSBC
              then hf_audio_state_connected (f, s1)
            else
              (let (f', s') = hf_audio_state_disconnected (f, s1)
               in (f', bt_app_stop_mic_level_monitoring s')))
     in if state = ESP_HF_AUDIO_STATE_CONNECTED \<or> state = ESP_HF_AUDIO_STATE_CONNECTED_MSBC
          then
            let s3 = s2\<lparr>s_audio_code := state, s_time_old := now1\<rparr>;
                s4 = bt_app_send_data now2 s3
            in (f2, if mic_active then bt_app_start_mic_level_monitoring s4 else s4)
        else (f2, s2))"

text \<open>
  Readings of a session for the packetizer: a frame delivered to the incoming callback, a
  call of the streaming module in between, and the teardown of the audio link.
\<close>

datatype sys_op =
    Sys_frame cb_env "byte list option" "32 word"
  | Sys_stream stream_op

fun session_step ::
  "sys_op \<Rightarrow> hf_state \<times> audio_stream \<Rightarrow> stream_packet_header_t option \<times> hf_state \<times> audio_stream" where
  "session_step (Sys_frame env buf sz) (s, st) = bt_app_hf_incoming_cb env buf sz (s, st)"
| "session_step (Sys_stream op) (s, st) = (None, s, fst (stream_step op st))"

fun session_run ::
  "sys_op list \<Rightarrow> hf_state \<times> audio_stream \<Rightarrow> stream_packet_header_t list \<times> hf_state \<times> audio_stream" where
  "session_run [] (s, st) = ([], s, st)"
| "session_run (op # ops) (s, st) =
     (case session_step op (s, st) of
        (h, s1, st1) \<Rightarrow>
          (case session_run ops (s1, st1) of
             (hs, s2, st2) \<Rightarrow> ((case h of None \<Rightarrow> [] | Some x \<Rightarrow> [x]) @ hs, s2, st2)))"

text \<open>
  A connected streaming module, an environment for the callback, and a frame of four
  bytes.
\<close>

definition test_stream_connected :: audio_stream where
  "test_stream_connected = fst (snd (connect_to_server test_env_up test_stream))"

definition test_cb_env :: cb_env where
  "test_cb_env =
     \<lparr>time_first = 1000, time_entry = 1001, time_header = 1002, packet_alloc_ok = True,
      copy_alloc_ok = True\<rparr>"

definition test_frame :: sys_op where
  "test_frame = Sys_frame test_cb_env (Some [1, 0, 255, 127]) 4"

section \<open>Connection orchestrator (call simulation)\<close>

text \<open>
  The file-scope state of the call simulation, and the local variables of the monitor
  task.  The counters are \<open>int\<close>s that start at 0 and only grow, by one per half second.
\<close>

record call_sim =
  s_call_active :: bool
  s_mic_monitoring_active :: bool
  s_mic_monitor_task_handle :: bool

record monitor_locals =
  counter :: int
  audio_connection_attempts :: int
  was_connected :: bool
  stable_connection_counter :: int

definition monitor_task_entry :: monitor_locals where
  "monitor_task_entry =
     \<lparr>counter = 0, audio_connection_attempts = 0, was_connected = False,
      stable_connection_counter = 0\<rparr>"

text \<open>
  One pass of the body of the \<open>while\<close> loop of \<open>microphone_level_monitor_task\<close>, for the
  value of \<open>g_audio_connected\<close> it reads.  The result says whether the pass called
  \<open>esp_hf_ag_audio_connect\<close>.  Log output is left out.
\<close>

definition monitor_pass :: "bool \<Rightarrow> monitor_locals \<Rightarrow> bool \<times> monitor_locals" where
  "monitor_pass audio_state l =
     (let l1 = (if audio_state then
                  (let l' = l\<lparr>stable_connection_counter := stable_connection_counter l + 1\<rparr>
                   in if \<not> was_connected l'
                        then l'\<lparr>was_connected := True, audio_connection_attempts := 0\<rparr>
                      else l')
                else
                  (let l' = (if was_connected l then l\<lparr>was_connected := False\<rparr> else l)
                   in l'\<lparr>stable_connection_counter := 0\<rparr>));
          request = (\<not> audio_state \<and> counter l1 mod 15 = 0 \<and> audio_connection_attempts l1 < 3);
          l2 = (if request
                then l1\<lparr>audio_connection_attempts := audio_connection_attempts l1 + 1\<rparr>
                else l1)
      in (request, l2\<lparr>counter := counter l2 + 1\<rparr>))"

fun monitor_run :: "bool list \<Rightarrow> monitor_locals \<Rightarrow> bool list \<times> monitor_locals" where
  "monitor_run [] l = ([], l)"
| "monitor_run (a # as) l =
     (case monitor_pass a l of
        (r, l1) \<Rightarrow> (case monitor_run as l1 of (rs, l2) \<Rightarrow> (r # rs, l2)))"

text \<open>
  \<open>start_microphone_level_monitoring\<close> (the argument: does \<open>xTaskCreate\<close> succeed) and
  \<open>stop_microphone_level_monitoring\<close> (the argument: does the task end and clear its
  handle while the function waits for it, which it does for 100 ms and then for up to
  ten times 50 ms).  The calls to the hands-free API and the log output are left out;
  a task that is created starts with the locals of \<open>monitor_task_entry\<close>.
\<close>

definition start_microphone_level_monitoring :: "bool \<Rightarrow> call_sim \<Rightarrow> esp_err_t \<times> call_sim" where
  "start_microphone_level_monitoring task_ok c =
     (if s_mic_monitoring_active c then (ESP_OK, c)
      else
        let c1 = c\<lparr>s_mic_monitoring_active := True\<rparr>
        in if \<not> task_ok then (ESP_ERR_NO_MEM, c1\<lparr>s_mic_monitoring_active := False\<rparr>)
           else (ESP_OK, c1\<lparr>s_mic_monitor_task_handle := True\<rparr>))"

definition stop_microphone_level_monitoring :: "bool \<Rightarrow> call_sim \<Rightarrow> esp_err_t \<times> call_sim" where
  "stop_microphone_level_monitoring task_ends c =
     (if \<not> s_mic_monitoring_active c then (ESP_ERR_INVALID_STATE, c)
      else
        let c1 = c\<lparr>s_mic_monitoring_active := False\<rparr>
        in (ESP_OK,
            if s_mic_monitor_task_handle c1 \<and> task_ends
            then c1\<lparr>s_mic_monitor_task_handle := False\<rparr> else c1))"

definition is_microphone_monitoring_active :: "call_sim \<Rightarrow> bool" where
  "is_microphone_monitoring_active c = s_mic_monitoring_active c"

text \<open>
  Two sessions of two frames each, the audio link going down and coming up again after
  each, the streaming module staying connected.
\<close>

definition after_first_session :: "hf_state \<times> audio_stream" where
  "after_first_session = snd (session_run [test_frame, test_frame] (hf_startup, test_stream_connected))"

definition test_reconnect :: "hf_state \<Rightarrow> hf_state" where
  "test_reconnect s =
     snd (audio_state_evt 9000 9001 False ESP_HF_AUDIO_STATE_CONNECTED
            (audio_state_evt 8000 8001 False ESP_HF_AUDIO_STATE_DISCONNECTED
               (\<lparr>g_audio_connecting = False, g_audio_connected = True\<rparr>, s)))"

definition after_first_reset :: "hf_state \<times> audio_stream" where
  "after_first_reset = (test_reconnect (fst after_first_session), snd after_first_session)"

definition after_second_session :: "hf_state \<times> audio_stream" where
  "after_second_session = snd (session_run [test_frame, test_frame] after_first_reset)"

definition after_second_reset :: "hf_state \<times> audio_stream" where
  "after_second_reset = (test_reconnect (fst after_second_session), snd after_second_session)"

text \<open>
  A monitor that has been started and has analysed one frame of two samples, both 32767;
  and one that has analysed a frame of two zero samples.
\<close>

definition test_level_loud :: hf_state where
  "test_level_loud =
     analyze_mic_level [255, 127, 255, 127] 4 (bt_app_start_mic_level_monitoring hf_startup)"

definition test_level_silent :: hf_state where
  "test_level_silent =
     analyze_mic_level [0, 0, 0, 0] 4 (bt_app_start_mic_level_monitoring hf_startup)"

definition test_call_sim :: call_sim where
  "test_call_sim =
     \<lparr>s_call_active = False, s_mic_monitoring_active = False,
      s_mic_monitor_task_handle = False\<rparr>"

text \<open>
  Readings of a run of the generator: the passes in order, \<open>frame_synthesized\<close> for a pass
  that got as far as building a silence frame (whether or not the ring buffer then took
  it), and \<open>periodic t envs\<close> for wake-ups whose clock readings are \<open>t\<close>, \<open>t + 4000\<close>,
  \<open>t + 8000\<close>, ... microseconds.
\<close>

fun pacing_run :: "tick_env list \<Rightarrow> hf_state \<Rightarrow> tick_result list \<times> hf_state" where
  "pacing_run [] s = ([], s)"
| "pacing_run (env # envs) s =
     (case bt_app_send_data_task env s of
        (r, s1) \<Rightarrow> (case pacing_run envs s1 of (rs, s2) \<Rightarrow> (r # rs, s2)))"

fun frame_synthesized :: "tick_result \<Rightarrow> bool" where
  "frame_synthesized (Tick_pushed ready) = True"
| "frame_synthesized (Tick_push_failed ready) = True"
| "frame_synthesized _ = False"

fun periodic :: "64 word \<Rightarrow> tick_env list \<Rightarrow> bool" where
  "periodic t [] = True"
| "periodic t (env # envs) = (tick_now env = t \<and> periodic (t + of_nat PCM_GENERATOR_TICK_US) envs)"

text \<open>
  A generator set up at time 1000 for a wideband link, whose last frame went out at time
  10000; a wake-up 4000 microseconds later; and 100 wake-ups 4000 microseconds apart.
\<close>

definition test_generator :: hf_state where
  "test_generator =
     (bt_app_send_data 1000 hf_startup)
       \<lparr>s_audio_code := ESP_HF_AUDIO_STATE_CONNECTED_MSBC, last_frame_time := 10000\<rparr>"

definition test_tick :: "nat \<Rightarrow> tick_env" where
  "test_tick i =
     \<lparr>tick_now = 14000 + 4000 * of_nat i, tick_after_send = 14001 + 4000 * of_nat i,
      tick_alloc_ok = True\<rparr>"

definition test_ticks :: "tick_env list" where
  "test_ticks = map test_tick [0..<100]"

section \<open>Verification\<close>

declare queue_cleanup.simps [simp del] drain_queue.simps [simp del] print_unsigned.simps [simp del]

subsection \<open>The transmit queue under pushes\<close>

lemma queue_cleanup_drop: "queue_cleanup i q = drop (5 - i) q"
proof (induction i q rule: queue_cleanup.induct)
  case (1 i q)
  show ?case
  proof (cases "i < 5")
    case True
    show ?thesis
    proof (cases q)
      case Nil
      then show ?thesis using True by (subst queue_cleanup.simps) (simp add: xQueueReceive_def)
    next
      case (Cons x q')
      have "queue_cleanup i q = queue_cleanup (i + 1) q'"
        using True Cons by (subst queue_cleanup.simps) (simp add: xQueueReceive_def)
      also have "\<dots> = drop (5 - (i + 1)) q'"
        using "1.IH" [of "(x, q')" x q'] True Cons by (simp add: xQueueReceive_def)
      also have "\<dots> = drop (5 - i) q"
        using True Cons by (simp add: Suc_diff_Suc drop_Cons')
      finally show ?thesis .
    qed
  next
    case False
    then show ?thesis by (subst queue_cleanup.simps) simp
  qed
qed

lemma send_precheck_eq: "send_precheck q = (if 40 < length q then drop 5 q else q)"
  by (simp add: send_precheck_def uxQueueMessagesWaiting_def queue_cleanup_drop Let_def)

lemma drain_queue_Nil: "drain_queue q = []"
proof (induction q)
  case Nil
  show ?case by (subst drain_queue.simps) (simp add: xQueueReceive_def)
next
  case (Cons x q)
  then show ?case by (subst drain_queue.simps) (simp add: xQueueReceive_def)
qed

lemma valid_packet_size:
  "valid_packet p \<Longrightarrow>
     (of_nat (length p) :: 32 word) \<noteq> 0 \<and> unat (of_nat (length p) :: 32 word) = length p"
proof -
  assume v: "valid_packet p"
  then have u: "unat (of_nat (length p) :: 32 word) = length p"
    by (simp add: valid_packet_def unat_of_nat)
  moreover have "(of_nat (length p) :: 32 word) \<noteq> 0"
  proof
    assume "(of_nat (length p) :: 32 word) = 0"
    then have "unat (of_nat (length p) :: 32 word) = 0" by simp
    with u v show False by (simp add: valid_packet_def)
  qed
  ultimately show ?thesis by simp
qed

lemma push_packet_eq:
  assumes "is_running s" "valid_packet p"
  shows "push_packet p s =
    (let q1 = send_precheck (audio_queue s) in
       s\<lparr>audio_queue := (if length q1 < 50 then q1 @ [as_item p] else q1)\<rparr>)"
  using assms valid_packet_size [OF assms(2)]
  by (simp add: push_packet_def audio_streaming_send_def Let_def xQueueSend_def AUDIO_QUEUE_LENGTH_def as_item_def)

lemma push_all_Nil: "push_all [] s = s"
  by (simp add: push_all_def)

lemma push_all_Cons: "push_all (p # ps) s = push_all ps (push_packet p s)"
  by (simp add: push_all_def)

lemma push_all_append: "push_all (ps @ ps') s = push_all ps' (push_all ps s)"
  by (simp add: push_all_def)

lemma push_all_below_watermark:
  assumes "is_running s" "\<forall>p\<in>set ps. valid_packet p"
    and "length (audio_queue s) + length ps \<le> 41"
  shows "push_all ps s = s\<lparr>audio_queue := audio_queue s @ map as_item ps\<rparr>"
  using assms
proof (induction ps arbitrary: s)
  case Nil
  then show ?case by (simp add: push_all_Nil)
next
  case (Cons p ps)
  have len: "length (audio_queue s) \<le> 40" using Cons.prems(3) by simp
  have step: "push_packet p s = s\<lparr>audio_queue := audio_queue s @ [as_item p]\<rparr>"
    using Cons.prems(1,2) len by (simp add: push_packet_eq send_precheck_eq)
  have "push_all ps (push_packet p s) =
          (push_packet p s)\<lparr>audio_queue := audio_queue (push_packet p s) @ map as_item ps\<rparr>"
    using Cons.prems by (intro Cons.IH) (simp_all add: step)
  then show ?case by (simp add: push_all_Cons step)
qed

lemma push_all_queue:
  assumes run: "is_running s" and empty: "audio_queue s = []"
    and valid: "\<forall>p\<in>set ps. valid_packet p" and len: "length ps \<le> 45"
  shows "push_all ps s =
           s\<lparr>audio_queue := map as_item (if length ps \<le> 41 then ps else drop 5 ps)\<rparr>"
proof (cases "length ps \<le> 41")
  case True
  then show ?thesis
    using push_all_below_watermark [OF run valid] empty by simp
next
  case False
  define ps1 where "ps1 = take 41 ps"
  define x where "x = ps ! 41"
  define ps2 where "ps2 = drop (Suc 41) ps"
  have "41 < length ps" using False by simp
  then have "drop 41 ps = x # ps2"
    unfolding x_def ps2_def by (rule Cons_nth_drop_Suc [symmetric])
  then have split: "ps = ps1 @ x # ps2"
    unfolding ps1_def by (metis append_take_drop_id)
  have l1: "length ps1 = 41" using False by (simp add: ps1_def)
  have l2: "length ps2 \<le> 3" using len by (simp add: ps2_def)
  have v1: "\<forall>p\<in>set ps1. valid_packet p" and vx: "valid_packet x"
    and v2: "\<forall>p\<in>set ps2. valid_packet p"
    using valid split by (metis Un_iff set_append list.set_intros(1,2))+
  let ?s1 = "s\<lparr>audio_queue := map as_item ps1\<rparr>"
  have a: "push_all ps1 s = ?s1"
    using push_all_below_watermark [OF run v1] empty l1 by simp
  let ?s2 = "s\<lparr>audio_queue := drop 5 (map as_item ps1) @ [as_item x]\<rparr>"
  have b: "push_packet x ?s1 = ?s2"
    using run vx l1 by (simp add: push_packet_eq send_precheck_eq)
  have c: "push_all ps2 ?s2 = ?s2\<lparr>audio_queue := audio_queue ?s2 @ map as_item ps2\<rparr>"
    using run v2 l1 l2 by (intro push_all_below_watermark) simp_all
  have "push_all ps s = push_all ps2 (push_packet x (push_all ps1 s))"
    by (subst split) (simp add: push_all_append push_all_Cons)
  also have "\<dots> = s\<lparr>audio_queue := drop 5 (map as_item ps1) @ [as_item x] @ map as_item ps2\<rparr>"
    by (simp add: a b c)
  finally have e: "push_all ps s =
      s\<lparr>audio_queue := drop 5 (map as_item ps1) @ [as_item x] @ map as_item ps2\<rparr>" .
  have "map as_item (drop 5 ps) = map as_item (drop 5 (ps1 @ x # ps2))"
    using split by simp
  also have "\<dots> = drop 5 (map as_item ps1) @ [as_item x] @ map as_item ps2"
    by (simp add: l1 drop_map)
  finally show ?thesis using False e by simp
qed

text \<open>
  C1 (as amended).  Capacity 50, high watermark 40: when 45 valid packets are pushed in
  order into a started module with an empty queue, the only push that evicts is the 42nd
  (the first one that finds more than 40 packets queued; \<open>k\<close> counts the packets pushed
  before it), it frees 5 packets, and afterwards the queue holds packets 6 to 45 in the
  order they were pushed.
\<close>

theorem C1_watermark_scenario:
  assumes "is_running s" and "audio_queue s = []"
    and "length ps = 45" and "\<forall>p\<in>set ps. valid_packet p"
  shows "(\<forall>k<45. evicted_on_push (audio_queue (push_all (take k ps) s)) = (if k = 41 then 5 else 0))
       \<and> audio_queue (push_all ps s) = map as_item (drop 5 ps)"
proof (intro conjI allI impI)
  fix k :: nat
  assume k: "k < 45"
  have v: "\<forall>p\<in>set (take k ps). valid_packet p"
    using assms(4) by (meson in_set_takeD)
  have q: "audio_queue (push_all (take k ps) s) =
             map as_item (if k \<le> 41 then take k ps else drop 5 (take k ps))"
    using push_all_queue [OF assms(1,2) v] k assms(3) by simp
  show "evicted_on_push (audio_queue (push_all (take k ps) s)) = (if k = 41 then 5 else 0)"
    using k assms(3) by (auto simp: q evicted_on_push_def send_precheck_eq)
next
  show "audio_queue (push_all ps s) = map as_item (drop 5 ps)"
    using push_all_queue [OF assms(1,2,4)] assms(3) by simp
qed

lemma test_stream_running: "is_running test_stream \<and> audio_queue test_stream = []"
  by (simp add: test_stream_def audio_streaming_start_def audio_streaming_init_def)

lemma test_packets_valid: "length test_packets = 45 \<and> list_all valid_packet test_packets"
  by (simp add: test_packets_def valid_packet_def list_all_iff)

text \<open>The scenario of C1 on the packets numbered 1 to 45.\<close>

theorem C1_watermark_scenario_witness:
  "is_running test_stream \<and> audio_queue test_stream = [] \<and> length test_packets = 45
   \<and> list_all valid_packet test_packets
   \<and> evicted_on_push (audio_queue (push_all (take 40 test_packets) test_stream)) = 0
   \<and> evicted_on_push (audio_queue (push_all (take 41 test_packets) test_stream)) = 5
   \<and> evicted_on_push (audio_queue (push_all (take 42 test_packets) test_stream)) = 0
   \<and> audio_queue (push_all test_packets test_stream) = map as_item (drop 5 test_packets)"
proof -
  have r: "is_running test_stream" and e: "audio_queue test_stream = []"
    using test_stream_running by simp_all
  have l: "length test_packets = 45" and v: "\<forall>p\<in>set test_packets. valid_packet p"
    using test_packets_valid by (simp_all add: list_all_iff)
  show ?thesis
    using C1_watermark_scenario [OF r e l v] r e l test_packets_valid by simp
qed

text \<open>
  C1 as stated places the eviction at the 41st push.  That push finds 40 packets queued,
  and 40 is not more than the watermark: nothing is evicted and the queue then holds 41
  packets.
\<close>

theorem C1_eviction_not_at_41st_push:
  "evicted_on_push (audio_queue (push_all (take 40 test_packets) test_stream)) = 0
   \<and> length (audio_queue (push_all (take 41 test_packets) test_stream)) = 41"
proof -
  have r: "is_running test_stream" and e: "audio_queue test_stream = []"
    using test_stream_running by simp_all
  have v: "\<forall>p\<in>set (take k test_packets). valid_packet p" for k
    using test_packets_valid by (auto simp: list_all_iff dest: in_set_takeD)
  have l: "length test_packets = 45" using test_packets_valid by simp
  have a: "audio_queue (push_all (take 40 test_packets) test_stream) = map as_item (take 40 test_packets)"
    using push_all_queue [OF r e v [of 40]] l by simp
  have b: "audio_queue (push_all (take 41 test_packets) test_stream) = map as_item (take 41 test_packets)"
    using push_all_queue [OF r e v [of 41]] l by simp
  show ?thesis by (simp add: a b l evicted_on_push_def send_precheck_eq)
qed

subsection \<open>Capacity and order of the transmit queue\<close>

lemma send_queue_cases:
  "audio_queue (snd (audio_streaming_send m d z s)) =
     (if \<not> is_running s \<or> d = None \<or> z = 0 then audio_queue s
      else let q1 = (if 40 < length (audio_queue s) then drop 5 (audio_queue s) else audio_queue s)
           in if m \<and> length q1 < 50 then q1 @ [\<lparr>data = take (unat z) (the d), size_bytes = z\<rparr>]
              else q1)"
  by (simp add: audio_streaming_send_def send_precheck_eq Let_def xQueueSend_def AUDIO_QUEUE_LENGTH_def)

lemma send_length_le:
  "length (audio_queue s) \<le> 50 \<Longrightarrow> length (audio_queue (snd (audio_streaming_send m d z s))) \<le> 50"
  by (auto simp: send_queue_cases Let_def)

lemma sent_packets_append: "sent_packets (xs @ ys) = sent_packets xs @ sent_packets ys"
  by (induction xs rule: sent_packets.induct) simp_all

lemma sent_disconnect_events [simp]: "sent_packets (disconnect_events s) = []"
  by (simp add: disconnect_events_def)

lemma connect_to_server_queue:
  "connect_to_server env s = (r, s1, evs) \<Longrightarrow> audio_queue s1 = audio_queue s \<and> sent_packets evs = []"
  by (auto simp: connect_to_server_def Let_def split: if_splits)

lemma disconnect_queue [simp]: "audio_queue (disconnect_from_server s) = audio_queue s"
  by (simp add: disconnect_from_server_def Let_def)

lemma task_forward_queue:
  "task_forward env s = (s1, evs) \<Longrightarrow> sent_packets evs @ audio_queue s1 = audio_queue s"
  by (auto simp: task_forward_def xQueueReceive_def Let_def split: list.splits if_splits)

lemma task_queue:
  assumes "audio_streaming_task env s = (s1, evs)"
  shows "sent_packets evs @ audio_queue s1 = audio_queue s"
proof (cases "is_running s")
  case False
  with assms show ?thesis by (auto simp: audio_streaming_task_def)
next
  case run: True
  show ?thesis
  proof (cases "is_connected s")
    case True
    with run assms show ?thesis by (simp add: audio_streaming_task_def task_forward_queue)
  next
    case False
    obtain r s' evs' where c: "connect_to_server env s = (r, s', evs')"
      by (cases "connect_to_server env s") auto
    note q = connect_to_server_queue [OF c]
    show ?thesis
    proof (cases "r = ESP_OK")
      case True
      obtain s2 evs2 where f: "task_forward env s' = (s2, evs2)"
        by (cases "task_forward env s'") auto
      from assms run False c True f have "s1 = s2" "evs = evs' @ evs2"
        by (simp_all add: audio_streaming_task_def)
      then show ?thesis using task_forward_queue [OF f] q by (simp add: sent_packets_append)
    next
      case ne: False
      from assms run False c ne have "s1 = s'" "evs = evs' @ [Ev_delay 5000]"
        by (cases r; simp add: audio_streaming_task_def)+
      then show ?thesis using q by (simp add: sent_packets_append)
    qed
  qed
qed

lemma stop_queue:
  "audio_queue (snd (audio_streaming_stop s)) = (if is_running s then [] else audio_queue s)"
  by (simp add: audio_streaming_stop_def Let_def drain_queue_Nil)

lemma start_queue [simp]: "audio_queue (snd (audio_streaming_start t s)) = audio_queue s"
  by (simp add: audio_streaming_start_def)

lemma step_length_le:
  assumes "length (audio_queue s) \<le> 50"
  shows "length (audio_queue (fst (stream_step op s))) \<le> 50"
proof (cases op)
  case (Op_send m d z)
  then show ?thesis using assms by (simp add: send_length_le)
next
  case (Op_task env)
  obtain s1 evs where t: "audio_streaming_task env s = (s1, evs)"
    by (cases "audio_streaming_task env s") auto
  have "length (sent_packets evs @ audio_queue s1) \<le> 50"
    using task_queue [OF t] assms by simp
  then show ?thesis using Op_task t by simp
next
  case (Op_start t)
  then show ?thesis using assms by simp
next
  case Op_stop
  then show ?thesis using assms by (simp add: stop_queue)
qed

lemma run_length_le:
  "length (audio_queue s) \<le> 50 \<Longrightarrow> length (audio_queue (fst (stream_run ops s))) \<le> 50"
proof (induction ops arbitrary: s)
  case Nil
  then show ?case by simp
next
  case (Cons op ops)
  have "length (audio_queue (fst (stream_step op s))) \<le> 50"
    using Cons.prems by (rule step_length_le)
  then have "length (audio_queue (fst (stream_run ops (fst (stream_step op s))))) \<le> 50"
    by (rule Cons.IH)
  then show ?case by (simp add: split_beta Let_def)
qed

lemma step_fifo:
  "subseq (sent_packets (snd (stream_step op s)) @ audio_queue (fst (stream_step op s)))
          (audio_queue s @ offered [op])"
proof (cases op)
  case (Op_send m d z)
  show ?thesis
  proof (cases d)
    case None
    then show ?thesis using Op_send by (simp add: send_queue_cases)
  next
    case (Some b)
    have "subseq (drop 5 (audio_queue s)) (audio_queue s)"
      by (metis append_take_drop_id subseq_order.order_refl list_emb_append2)
    then show ?thesis using Op_send Some
      by (auto simp: send_queue_cases Let_def intro: list_emb_append_mono subseq_order.order_refl
               simp del: subseq_order.order_refl) 
  qed
next
  case (Op_task env)
  obtain s1 evs where t: "audio_streaming_task env s = (s1, evs)"
    by (cases "audio_streaming_task env s") auto
  show ?thesis using Op_task t task_queue [OF t] by simp
next
  case (Op_start t)
  then show ?thesis by simp
next
  case Op_stop
  then show ?thesis by (simp add: stop_queue)
qed

lemma offered_Cons: "offered (op # ops) = offered [op] @ offered ops"
  by (induction "[op]" arbitrary: op rule: offered.induct) simp_all

lemma run_fifo:
  "subseq (sent_packets (snd (stream_run ops s)) @ audio_queue (fst (stream_run ops s)))
          (audio_queue s @ offered ops)"
proof (induction ops arbitrary: s)
  case Nil
  then show ?case by simp
next
  case (Cons op ops)
  let ?s1 = "fst (stream_step op s)" and ?e1 = "snd (stream_step op s)"
  let ?s2 = "fst (stream_run ops ?s1)" and ?e2 = "snd (stream_run ops ?s1)"
  have run: "stream_run (op # ops) s = (?s2, ?e1 @ ?e2)"
    by (simp add: split_beta Let_def)
  have ih: "subseq (sent_packets ?e2 @ audio_queue ?s2) (audio_queue ?s1 @ offered ops)"
    by (rule Cons.IH)
  have "subseq (sent_packets ?e1 @ (sent_packets ?e2 @ audio_queue ?s2))
               (sent_packets ?e1 @ (audio_queue ?s1 @ offered ops))"
    using ih by (simp only: subseq_append')
  moreover have "subseq ((sent_packets ?e1 @ audio_queue ?s1) @ offered ops)
                        ((audio_queue s @ offered [op]) @ offered ops)"
    using step_fifo [of op s] by (simp only: subseq_append)
  ultimately have "subseq (sent_packets ?e1 @ sent_packets ?e2 @ audio_queue ?s2)
                          (audio_queue s @ offered [op] @ offered ops)"
    using subseq_order.trans [of "sent_packets ?e1 @ (sent_packets ?e2 @ audio_queue ?s2)"
        "sent_packets ?e1 @ (audio_queue ?s1 @ offered ops)" "(audio_queue s @ offered [op]) @ offered ops"]
    by (simp only: append_assoc)
  then show ?case
    by (simp only: run fst_conv snd_conv sent_packets_append append_assoc offered_Cons [of op ops])
qed

text \<open>
  C3.  Whatever calls reach the module, in whatever order (pushes with any arguments and
  any allocation outcome, passes of the consumer task, start and stop), a queue that is
  within its capacity of 50 stays within it after every prefix of the calls; the packets
  the task handed to \<open>send\<close> followed by the packets still queued are a subsequence of
  the packets already queued followed by the packets offered, in the order offered; and a
  single push leaves the old queue, or the old queue without its 5 oldest items when more
  than 40 were waiting, with the new item appended at the tail when it is accepted.
\<close>

theorem C3_queue_bounded_fifo:
  assumes "length (audio_queue s) \<le> 50"
  shows "(\<forall>k\<le>length ops. length (audio_queue (fst (stream_run (take k ops) s))) \<le> 50)
       \<and> subseq (sent_packets (snd (stream_run ops s)) @ audio_queue (fst (stream_run ops s)))
                 (audio_queue s @ offered ops)
       \<and> audio_queue (snd (audio_streaming_send m d z s)) =
             (if \<not> is_running s \<or> d = None \<or> z = 0 then audio_queue s
              else let q1 = (if 40 < length (audio_queue s) then drop 5 (audio_queue s)
                             else audio_queue s)
                   in if m \<and> length q1 < 50
                        then q1 @ [\<lparr>data = take (unat z) (the d), size_bytes = z\<rparr>]
                      else q1)"
  using run_length_le [OF assms] run_fifo [of ops s] send_queue_cases [of m d z s]
  by blast

text \<open>C3 on a run of two pushes, a pass of the task that cannot connect, and a third push.\<close>

theorem C3_queue_bounded_fifo_witness:
  "length (audio_queue test_stream) \<le> 50
   \<and> length (audio_queue (fst (stream_run test_ops test_stream))) \<le> 50
   \<and> subseq (sent_packets (snd (stream_run test_ops test_stream)) @
               audio_queue (fst (stream_run test_ops test_stream)))
              (audio_queue test_stream @ offered test_ops)
   \<and> audio_queue (fst (stream_run test_ops test_stream)) = map as_item [[7], [9], [11]]"
proof -
  have l: "length (audio_queue test_stream) \<le> 50"
    by (simp add: test_stream_running)
  have q: "audio_queue (fst (stream_run test_ops test_stream)) = map as_item [[7], [9], [11]]"
    by (simp add: test_ops_def test_env_down_def test_stream_def audio_streaming_start_def
        audio_streaming_init_def audio_streaming_send_def send_precheck_def
        uxQueueMessagesWaiting_def xQueueSend_def AUDIO_QUEUE_LENGTH_def as_item_def
        audio_streaming_task_def connect_to_server_def Let_def)
  from C3_queue_bounded_fifo [OF l, of test_ops]
  have "length (audio_queue (fst (stream_run (take (length test_ops) test_ops) test_stream))) \<le> 50"
    and "subseq (sent_packets (snd (stream_run test_ops test_stream)) @
               audio_queue (fst (stream_run test_ops test_stream)))
              (audio_queue test_stream @ offered test_ops)"
    by blast+
  then show ?thesis using l q by simp
qed

subsection \<open>Handshake and connection state\<close>

lemma print_unsigned_length: "0 < k \<Longrightarrow> n < 10 ^ k \<Longrightarrow> length (print_unsigned n) \<le> k"
proof (induction k arbitrary: n)
  case 0
  then show ?case by simp
next
  case (Suc k)
  show ?case
  proof (cases "n < 10")
    case True
    then show ?thesis by (subst print_unsigned.simps) simp
  next
    case False
    then have k: "0 < k" using Suc.prems by (cases k) auto
    have "n div 10 < 10 ^ k" using Suc.prems by (simp add: less_mult_imp_div_less mult.commute)
    then have "length (print_unsigned (n div 10)) \<le> k" using k Suc.IH by blast
    then show ?thesis using False by (subst print_unsigned.simps) simp
  qed
qed

lemma print_u32_length: "length (print_unsigned (unat (w :: 32 word))) \<le> 10"
proof -
  have "unat w < 2 ^ 32" using unsigned_less [of w] by simp
  then have "unat w < 10 ^ 10" by simp
  then show ?thesis by (intro print_unsigned_length) simp_all
qed

lemma print_u8_length: "length (print_unsigned (unat (w :: 8 word))) \<le> 3"
proof -
  have "unat w < 2 ^ 8" using unsigned_less [of w] by simp
  then have "unat w < 10 ^ 3" by simp
  then show ?thesis by (intro print_unsigned_length) simp_all
qed

lemma stream_header_text_length: "length (stream_header_text cfg) \<le> 81"
proof -
  have c: "length (if sample_rate cfg = 16000 then ''MSBC'' else ''CVSD'') = 4"
    by simp
  have "length (stream_header_text cfg) =
          65 + length (print_unsigned (unat (sample_rate cfg)))
             + length (print_unsigned (unat (channels cfg)))
             + length (print_unsigned (unat (bits_per_sample cfg)))"
    unfolding stream_header_text_def length_append c by simp
  then show ?thesis
    using print_u32_length [of "sample_rate cfg"] print_u8_length [of "channels cfg"]
      print_u8_length [of "bits_per_sample cfg"]
    by linarith
qed

lemma header_not_truncated: "take 255 (stream_header_text cfg) = stream_header_text cfg"
  using stream_header_text_length [of cfg] by simp

lemma connect_to_server_cases:
  "connect_to_server env s =
     (if socket_ret env < 0 then (ESP_FAIL, s\<lparr>socket_fd := socket_ret env\<rparr>, [Ev_socket (socket_ret env)])
      else if inet_pton_ret env \<le> 0 \<or> connect_ret env < 0
        then (ESP_FAIL, s\<lparr>socket_fd := -1\<rparr>, [Ev_socket (socket_ret env), Ev_close (socket_ret env)])
      else if header_send_ret env < 0
        then (ESP_FAIL, s\<lparr>socket_fd := -1\<rparr>,
              [Ev_socket (socket_ret env),
               Ev_handshake (stream_header_text (config s)) (header_send_ret env),
               Ev_close (socket_ret env)])
      else (ESP_OK, s\<lparr>socket_fd := socket_ret env, is_connected := True\<rparr>,
            [Ev_socket (socket_ret env),
             Ev_handshake (stream_header_text (config s)) (header_send_ret env)]))"
  by (simp add: connect_to_server_def Let_def header_not_truncated)











subsection \<open>Frames that arrive while the transport is down\<close>

lemma analyze_mic_level_frame:
  "s_stream_seq (analyze_mic_level b z s) = s_stream_seq s
   \<and> s_prev_header_seq (analyze_mic_level b z s) = s_prev_header_seq s
   \<and> s_lost_seq_estimate (analyze_mic_level b z s) = s_lost_seq_estimate s
   \<and> failed_sends (analyze_mic_level b z s) = failed_sends s
   \<and> s_audio_code (analyze_mic_level b z s) = s_audio_code s"
proof -
  have "s_stream_seq (mic_level_loop xs s) = s_stream_seq s
   \<and> s_prev_header_seq (mic_level_loop xs s) = s_prev_header_seq s
   \<and> s_lost_seq_estimate (mic_level_loop xs s) = s_lost_seq_estimate s
   \<and> failed_sends (mic_level_loop xs s) = failed_sends s
   \<and> s_audio_code (mic_level_loop xs s) = s_audio_code s" for xs
    by (induction xs arbitrary: s) (simp_all add: Let_def)
  then show ?thesis by (simp add: analyze_mic_level_def Let_def)
qed

lemma mic_level_loop_eq:
  "mic_level_loop xs s =
     s\<lparr>s_mic_level_sum := s_mic_level_sum s + sum_list (map abs_sample_of xs),
       s_mic_level_samples := s_mic_level_samples s + int (length xs),
       s_mic_level_max :=
         fold (\<lambda>x m. if abs_sample_of x > m then abs_sample_of x else m) xs (s_mic_level_max s)\<rparr>"
  by (induction xs arbitrary: s) (simp_all add: Let_def)

lemma incoming_cb_not_connected:
  assumes "\<not> audio_streaming_is_connected st" and "sz \<noteq> 0" and "buf \<noteq> None"
  shows "bt_app_hf_incoming_cb env buf sz (s, st) =
      (None,
       (analyze_mic_level (the buf) sz s)
         \<lparr>s_incoming_cb_counter := s_incoming_cb_counter s + 1,
          s_first_packet_time_us :=
            (if s_first_packet_time_us s = 0 then time_first env else s_first_packet_time_us s),
          s_last_log_time_us :=
            (if s_first_packet_time_us s = 0 then time_first env else s_last_log_time_us s),
          s_time_new := time_entry env,
          s_data_num := s_data_num s + uint sz,
          failed_sends := failed_sends s + 1\<rparr>,
       st)"
proof -
  from assms(3) obtain b where b: "buf = Some b" by blast
  show ?thesis
    using assms(1,2)
    by (simp add: b bt_app_hf_incoming_cb_def Let_def analyze_mic_level_def mic_level_loop_eq)
qed


text \<open>
  C10.  When the streaming module is not connected, a call of the incoming callback with
  a frame (\<open>sz\<close> not 0, \<open>buf\<close> not null) stamps no header and leaves the streaming module
  (its queue included) as it was.  In the file's own state it does the bookkeeping at
  entry and the signal-level analysis, and adds one to \<open>failed_sends\<close>; the sequence
  counter, the recorded previous sequence number and the lost-count estimate keep their
  values.
\<close>

theorem C10_not_connected_drops_frame:
  assumes "\<not> audio_streaming_is_connected st" and "sz \<noteq> 0" and "buf \<noteq> None"
  shows "bt_app_hf_incoming_cb env buf sz (s, st) =
      (None,
       (analyze_mic_level (the buf) sz s)
         \<lparr>s_incoming_cb_counter := s_incoming_cb_counter s + 1,
          s_first_packet_time_us :=
            (if s_first_packet_time_us s = 0 then time_first env else s_first_packet_time_us s),
          s_last_log_time_us :=
            (if s_first_packet_time_us s = 0 then time_first env else s_last_log_time_us s),
          s_time_new := time_entry env,
          s_data_num := s_data_num s + uint sz,
          failed_sends := failed_sends s + 1\<rparr>,
       st)
    \<and> (case bt_app_hf_incoming_cb env buf sz (s, st) of (h, s', st') \<Rightarrow>
           h = None \<and> audio_queue st' = audio_queue st
           \<and> s_stream_seq s' = s_stream_seq s
           \<and> s_prev_header_seq s' = s_prev_header_seq s
           \<and> s_lost_seq_estimate s' = s_lost_seq_estimate s
           \<and> failed_sends s' = failed_sends s + 1)"
  using incoming_cb_not_connected [OF assms, where env = env and s = s]
  by (simp add: analyze_mic_level_frame)

text \<open>C10 at startup, for a frame of four bytes and a module that is not connected.\<close>

theorem C10_not_connected_drops_frame_witness:
  "\<not> audio_streaming_is_connected test_stream
   \<and> bt_app_hf_incoming_cb test_cb_env (Some [1, 0, 255, 127]) 4 (hf_startup, test_stream) =
       (None,
        hf_startup\<lparr>s_incoming_cb_counter := 1, s_first_packet_time_us := 1000,
          s_last_log_time_us := 1000, s_time_new := 1001, s_data_num := 4, failed_sends := 1\<rparr>,
        test_stream)"
proof -
  have n: "\<not> audio_streaming_is_connected test_stream"
    by (simp add: audio_streaming_is_connected_def test_stream_def audio_streaming_start_def
        audio_streaming_init_def)
  have a: "analyze_mic_level [1, 0, 255, 127] 4 hf_startup = hf_startup"
    by (simp add: analyze_mic_level_def hf_startup_def)
  have z: "(4 :: 32 word) \<noteq> 0" "Some [1, 0, 255, 127 :: byte] \<noteq> None" by simp_all
  show ?thesis
    using C10_not_connected_drops_frame [OF n z, where env = test_cb_env and s = hf_startup] n
    by (simp add: a) (simp add: hf_startup_def test_cb_env_def)
qed

subsection \<open>Sequence numbers and the gap detector\<close>




lemma shut_down_seq:
  "s_stream_seq (bt_app_send_data_shut_down s) = 0
   \<and> s_prev_header_seq (bt_app_send_data_shut_down s) = s_prev_header_seq s
   \<and> s_lost_seq_estimate (bt_app_send_data_shut_down s) = s_lost_seq_estimate s"
  by (simp add: bt_app_send_data_shut_down_def bt_app_stop_mic_level_monitoring_def Let_def
      split: option.splits)

lemma start_mic_level_seq:
  "s_stream_seq (bt_app_start_mic_level_monitoring s) = s_stream_seq s
   \<and> s_prev_header_seq (bt_app_start_mic_level_monitoring s) = s_prev_header_seq s
   \<and> s_lost_seq_estimate (bt_app_start_mic_level_monitoring s) = s_lost_seq_estimate s"
  by (simp add: bt_app_start_mic_level_monitoring_def)

lemma stop_mic_level_seq:
  "s_stream_seq (bt_app_stop_mic_level_monitoring s) = s_stream_seq s
   \<and> s_prev_header_seq (bt_app_stop_mic_level_monitoring s) = s_prev_header_seq s
   \<and> s_lost_seq_estimate (bt_app_stop_mic_level_monitoring s) = s_lost_seq_estimate s"
  by (simp add: bt_app_stop_mic_level_monitoring_def Let_def)

lemma audio_state_evt_seq:
  "s_stream_seq (snd (audio_state_evt now1 now2 m ev (f, s))) =
     (if ev = ESP_HF_AUDIO_STATE_DISCONNECTED then 0 else s_stream_seq s)
   \<and> s_prev_header_seq (snd (audio_state_evt now1 now2 m ev (f, s))) = s_prev_header_seq s
   \<and> s_lost_seq_estimate (snd (audio_state_evt now1 now2 m ev (f, s))) = s_lost_seq_estimate s"
  by (cases ev)
     (simp_all add: audio_state_evt_def hf_audio_state_connecting_def hf_audio_state_connected_def
        hf_audio_state_disconnected_def bt_app_send_data_def shut_down_seq start_mic_level_seq
        stop_mic_level_seq Let_def)

lemma reconnect_seq:
  "s_stream_seq (snd (audio_state_evt now3 now4 m' ev
      (audio_state_evt now1 now2 m ESP_HF_AUDIO_STATE_DISCONNECTED (f, s)))) = 0
   \<and> s_prev_header_seq (snd (audio_state_evt now3 now4 m' ev
      (audio_state_evt now1 now2 m ESP_HF_AUDIO_STATE_DISCONNECTED (f, s)))) = s_prev_header_seq s
   \<and> s_lost_seq_estimate (snd (audio_state_evt now3 now4 m' ev
      (audio_state_evt now1 now2 m ESP_HF_AUDIO_STATE_DISCONNECTED (f, s)))) = s_lost_seq_estimate s"
proof -
  obtain f1 s1 where e: "audio_state_evt now1 now2 m ESP_HF_AUDIO_STATE_DISCONNECTED (f, s) = (f1, s1)"
    by (cases "audio_state_evt now1 now2 m ESP_HF_AUDIO_STATE_DISCONNECTED (f, s)") auto
  from audio_state_evt_seq [of now1 now2 m ESP_HF_AUDIO_STATE_DISCONNECTED f s] e
  have "s_stream_seq s1 = 0" "s_prev_header_seq s1 = s_prev_header_seq s"
    "s_lost_seq_estimate s1 = s_lost_seq_estimate s" by simp_all
  with audio_state_evt_seq [of now3 now4 m' ev f1 s1] show ?thesis
    by (simp add: e)
qed

lemma test_reconnect_seq:
  "s_stream_seq (test_reconnect s) = 0
   \<and> s_prev_header_seq (test_reconnect s) = s_prev_header_seq s
   \<and> s_lost_seq_estimate (test_reconnect s) = s_lost_seq_estimate s"
  unfolding test_reconnect_def by (rule reconnect_seq)

lemma send_keeps_connected:
  "is_connected (snd (audio_streaming_send m d z st)) = is_connected st"
  by (simp add: audio_streaming_send_def Let_def split: option.splits)

lemma incoming_cb_gap:
  assumes "audio_streaming_is_connected st" and "sz \<noteq> 0" and "buf \<noteq> None"
  shows "(case bt_app_hf_incoming_cb env buf sz (s, st) of (h, s1, st1) \<Rightarrow>
     h \<noteq> None
     \<and> s_lost_seq_estimate s1 =
         (if s_prev_header_seq s \<noteq> 0 \<and> s_stream_seq s \<noteq> s_prev_header_seq s + 1
          then s_lost_seq_estimate s + (s_stream_seq s - (s_prev_header_seq s + 1))
          else s_lost_seq_estimate s)
     \<and> s_prev_header_seq s1 = s_stream_seq s
     \<and> s_stream_seq s1 = s_stream_seq s + 1
     \<and> audio_streaming_is_connected st1)"
proof -
  from assms(3) obtain b where b: "buf = Some b" by blast
  show ?thesis
    using assms(1,2)
    by (simp add: b bt_app_hf_incoming_cb_def Let_def split_beta analyze_mic_level_frame
        print_speed_def send_keeps_connected audio_streaming_is_connected_def)
qed


lemma session_run_state:
  "snd (session_run [] p) = p"
  "snd (session_run (op # ops) p) = snd (session_run ops (snd (session_step op p)))"
  by (cases p; simp add: split_beta)+

lemma test_frame_step:
  assumes "audio_streaming_is_connected (snd p)"
  shows "fst (session_step test_frame p) \<noteq> None
     \<and> s_lost_seq_estimate (fst (snd (session_step test_frame p))) =
         (if s_prev_header_seq (fst p) \<noteq> 0 \<and> s_stream_seq (fst p) \<noteq> s_prev_header_seq (fst p) + 1
          then s_lost_seq_estimate (fst p) + (s_stream_seq (fst p) - (s_prev_header_seq (fst p) + 1))
          else s_lost_seq_estimate (fst p))
     \<and> s_prev_header_seq (fst (snd (session_step test_frame p))) = s_stream_seq (fst p)
     \<and> s_stream_seq (fst (snd (session_step test_frame p))) = s_stream_seq (fst p) + 1
     \<and> audio_streaming_is_connected (snd (snd (session_step test_frame p)))"
proof -
  obtain s st where p: "p = (s, st)" by (cases p)
  have z: "(4 :: 32 word) \<noteq> 0" "Some [1, 0, 255, 127 :: byte] \<noteq> None" by simp_all
  from incoming_cb_gap [OF _ z, where env = test_cb_env and s = s and st = st] assms p
  show ?thesis by (simp add: test_frame_def split_beta)
qed

lemma test_stream_connected_facts:
  "audio_streaming_is_connected test_stream_connected \<and> is_running test_stream_connected
   \<and> audio_queue test_stream_connected = []"
  by (simp add: test_stream_connected_def connect_to_server_cases test_env_up_def
      audio_streaming_is_connected_def test_stream_running)

lemma hf_startup_seq:
  "s_stream_seq hf_startup = 0 \<and> s_prev_header_seq hf_startup = 0
   \<and> s_lost_seq_estimate hf_startup = 0"
  by (simp add: hf_startup_def)

lemma two_frames:
  assumes "audio_streaming_is_connected (snd p)" and "s_stream_seq (fst p) = 0"
    and "s_prev_header_seq (fst p) = k" and "k = 0 \<or> k = 1"
  shows "audio_streaming_is_connected (snd (snd (session_run [test_frame, test_frame] p)))
     \<and> s_stream_seq (fst (snd (session_run [test_frame, test_frame] p))) = 2
     \<and> s_prev_header_seq (fst (snd (session_run [test_frame, test_frame] p))) = 1
     \<and> s_lost_seq_estimate (fst (snd (session_run [test_frame, test_frame] p))) =
         (if k = 0 then s_lost_seq_estimate (fst p) else s_lost_seq_estimate (fst p) - 2)"
proof -
  let ?p1 = "snd (session_step test_frame p)"
  note a = test_frame_step [OF assms(1)]
  have c1: "audio_streaming_is_connected (snd ?p1)" using a by simp
  note b = test_frame_step [OF c1]
  show ?thesis
    using a b assms(2,3,4) by (auto simp: session_run_state)
qed

text \<open>
  C2.  When the audio link goes down, \<open>bt_app_send_data_shut_down\<close> resets
  \<open>s_stream_seq\<close> for the next session but leaves \<open>s_prev_header_seq\<close> and
  \<open>s_lost_seq_estimate\<close> as they are, and nothing touches them when the link comes up
  again.  After a first session of two frames (sequence numbers 0 and 1, nothing lost)
  and a reconnection, the first frame of the next session has sequence number 0 while
  the recorded previous number is still 1: gap detection is not disabled for it, and
  \<open>0 - (1 + 1)\<close>, that is \<open>0xFFFFFFFE\<close>, is added to the estimate although no frame was
  lost.  The same again after a second session wraps the 32-bit estimate down to
  \<open>0xFFFFFFFC\<close>: the counter has decreased.
\<close>

theorem C2_gap_state_survives_session_reset:
  "s_lost_seq_estimate (fst after_first_session) = 0
   \<and> s_stream_seq (fst after_first_reset) = 0
   \<and> s_prev_header_seq (fst after_first_reset) = 1
   \<and> s_lost_seq_estimate (fst (snd (session_step test_frame after_first_reset))) = 0xFFFFFFFE
   \<and> s_lost_seq_estimate (fst after_second_session) = 0xFFFFFFFE
   \<and> s_lost_seq_estimate (fst (snd (session_step test_frame after_second_reset))) = 0xFFFFFFFC"
proof -
  have p0: "audio_streaming_is_connected (snd (hf_startup, test_stream_connected))"
    "s_stream_seq (fst (hf_startup, test_stream_connected)) = 0"
    "s_prev_header_seq (fst (hf_startup, test_stream_connected)) = 0"
    using test_stream_connected_facts hf_startup_seq by simp_all
  from two_frames [OF p0] hf_startup_seq
  have s1: "audio_streaming_is_connected (snd after_first_session)"
    "s_prev_header_seq (fst after_first_session) = 1"
    "s_lost_seq_estimate (fst after_first_session) = 0"
    by (simp_all add: after_first_session_def)
  have r1: "audio_streaming_is_connected (snd after_first_reset)"
    "s_stream_seq (fst after_first_reset) = 0"
    "s_prev_header_seq (fst after_first_reset) = 1"
    "s_lost_seq_estimate (fst after_first_reset) = 0"
    using s1 by (simp_all add: after_first_reset_def test_reconnect_seq)
  have f1: "s_lost_seq_estimate (fst (snd (session_step test_frame after_first_reset))) = 0xFFFFFFFE"
    using test_frame_step [OF r1(1)] r1 by simp
  from two_frames [OF r1(1,2,3)] r1(4)
  have s2: "audio_streaming_is_connected (snd after_second_session)"
    "s_prev_header_seq (fst after_second_session) = 1"
    "s_lost_seq_estimate (fst after_second_session) = 0xFFFFFFFE"
    by (simp_all add: after_second_session_def)
  have r2: "audio_streaming_is_connected (snd after_second_reset)"
    "s_stream_seq (fst after_second_reset) = 0"
    "s_prev_header_seq (fst after_second_reset) = 1"
    "s_lost_seq_estimate (fst after_second_reset) = 0xFFFFFFFE"
    using s2 by (simp_all add: after_second_reset_def test_reconnect_seq)
  have f2: "s_lost_seq_estimate (fst (snd (session_step test_frame after_second_reset))) = 0xFFFFFFFC"
    using test_frame_step [OF r2(1)] r2 by simp
  show ?thesis using s1 r1 f1 s2 f2 by simp
qed







subsection \<open>The level report\<close>

lemma report_db_cases:
  "(let db0 = float_times 20 (log10f (real_of_int m / 32767))
    in if float_less db0 (- 60) then Float_finite (- 60) else db0) =
   (if 0 < m then Float_finite (max (- 60) (20 * log 10 (real_of_int m / 32767)))
    else if m = 0 then Float_finite (- 60) else Float_nan)"
  by (auto simp: log10f_def Let_def max_def)

text \<open>
  C7.  The periodic reporter does nothing when no sample has been counted (and when the
  monitor is switched off), and it never reaches its division with a zero divisor.  With
  the monitor on and a count that is not zero it reports the average \<open>sum / count\<close> (C
  division, narrowed to 16 bits; for a sum that is not negative this is \<open>sum div count\<close>),
  the peak, the count, and the level \<open>20 * log10 (peak / 32767)\<close> raised to the floor of
  -60 (minus infinity, for a peak of 0, becomes -60); then sum, count and peak are 0
  again and nothing else has changed.  The level is computed over the real numbers.
\<close>

theorem C7_mic_level_report:
  "(s_mic_level_samples s = 0 \<longrightarrow> mic_level_report_timer_cb s = (No_report, s))
   \<and> (\<not> s_mic_level_monitoring s \<longrightarrow> mic_level_report_timer_cb s = (No_report, s))
   \<and> fst (mic_level_report_timer_cb s) \<noteq> Division_by_zero
   \<and> (s_mic_level_monitoring s \<and> s_mic_level_samples s \<noteq> 0 \<longrightarrow>
        mic_level_report_timer_cb s =
          (Mic_level
             \<lparr>report_avg =
                sint (word_of_int (sgn (s_mic_level_sum s) * sgn (s_mic_level_samples s) *
                                   (\<bar>s_mic_level_sum s\<bar> div \<bar>s_mic_level_samples s\<bar>)) :: 16 word),
              report_max = s_mic_level_max s,
              report_db =
                (if 0 < s_mic_level_max s
                 then Float_finite (max (- 60) (20 * log 10 (real_of_int (s_mic_level_max s) / 32767)))
                 else if s_mic_level_max s = 0 then Float_finite (- 60) else Float_nan),
              report_samples = s_mic_level_samples s\<rparr>,
           s\<lparr>s_mic_level_sum := 0, s_mic_level_samples := 0, s_mic_level_max := 0\<rparr>))
   \<and> (0 \<le> s_mic_level_sum s \<and> 0 < s_mic_level_samples s
        \<and> s_mic_level_sum s div s_mic_level_samples s < 32768 \<longrightarrow>
        sint (word_of_int (sgn (s_mic_level_sum s) * sgn (s_mic_level_samples s) *
                           (\<bar>s_mic_level_sum s\<bar> div \<bar>s_mic_level_samples s\<bar>)) :: 16 word)
          = s_mic_level_sum s div s_mic_level_samples s)"
proof (intro conjI impI)
  show "mic_level_report_timer_cb s = (No_report, s)" if "s_mic_level_samples s = 0"
    using that by (simp add: mic_level_report_timer_cb_def)
  show "mic_level_report_timer_cb s = (No_report, s)" if "\<not> s_mic_level_monitoring s"
    using that by (simp add: mic_level_report_timer_cb_def)
  show "fst (mic_level_report_timer_cb s) \<noteq> Division_by_zero"
    by (simp add: mic_level_report_timer_cb_def c_div_def Let_def)
next
  assume a: "s_mic_level_monitoring s \<and> s_mic_level_samples s \<noteq> 0"
  show "mic_level_report_timer_cb s =
          (Mic_level
             \<lparr>report_avg =
                sint (word_of_int (sgn (s_mic_level_sum s) * sgn (s_mic_level_samples s) *
                                   (\<bar>s_mic_level_sum s\<bar> div \<bar>s_mic_level_samples s\<bar>)) :: 16 word),
              report_max = s_mic_level_max s,
              report_db =
                (if 0 < s_mic_level_max s
                 then Float_finite (max (- 60) (20 * log 10 (real_of_int (s_mic_level_max s) / 32767)))
                 else if s_mic_level_max s = 0 then Float_finite (- 60) else Float_nan),
              report_samples = s_mic_level_samples s\<rparr>,
           s\<lparr>s_mic_level_sum := 0, s_mic_level_samples := 0, s_mic_level_max := 0\<rparr>)"
    using a report_db_cases [of "s_mic_level_max s"]
    by (simp add: mic_level_report_timer_cb_def c_div_def Let_def)
next
  assume b: "0 \<le> s_mic_level_sum s \<and> 0 < s_mic_level_samples s
        \<and> s_mic_level_sum s div s_mic_level_samples s < 32768"
  let ?q = "s_mic_level_sum s div s_mic_level_samples s"
  have q0: "0 \<le> ?q" using b by (simp add: pos_imp_zdiv_nonneg_iff)
  have "sgn (s_mic_level_sum s) * sgn (s_mic_level_samples s) *
          (\<bar>s_mic_level_sum s\<bar> div \<bar>s_mic_level_samples s\<bar>) = ?q"
    using b by (cases "s_mic_level_sum s = 0") (simp_all add: sgn_if)
  moreover have "sint (word_of_int ?q :: 16 word) = ?q"
    using q0 b by (simp add: sint_sbintrunc' signed_take_bit_int_eq_self)
  ultimately show "sint (word_of_int (sgn (s_mic_level_sum s) * sgn (s_mic_level_samples s) *
                           (\<bar>s_mic_level_sum s\<bar> div \<bar>s_mic_level_samples s\<bar>)) :: 16 word)
          = s_mic_level_sum s div s_mic_level_samples s" by simp
qed


lemma test_level_loud_facts:
  "s_mic_level_monitoring test_level_loud \<and> s_mic_level_samples test_level_loud = 2
   \<and> s_mic_level_sum test_level_loud = 65534 \<and> s_mic_level_max test_level_loud = 32767"
  by (simp add: test_level_loud_def analyze_mic_level_def bt_app_start_mic_level_monitoring_def
      hf_startup_def abs_sample_of_def Let_def)

lemma test_level_silent_facts:
  "s_mic_level_monitoring test_level_silent \<and> s_mic_level_samples test_level_silent = 2
   \<and> s_mic_level_sum test_level_silent = 0 \<and> s_mic_level_max test_level_silent = 0"
  by (simp add: test_level_silent_def analyze_mic_level_def bt_app_start_mic_level_monitoring_def
      hf_startup_def abs_sample_of_def Let_def)

text \<open>
  C7 at startup (no samples), after one frame of two samples at full scale, and after one
  frame of silence.
\<close>

theorem C7_mic_level_report_witness:
  "mic_level_report_timer_cb hf_startup = (No_report, hf_startup)
   \<and> s_mic_level_monitoring test_level_loud \<and> s_mic_level_samples test_level_loud = 2
   \<and> fst (mic_level_report_timer_cb test_level_loud) =
       Mic_level \<lparr>report_avg = 32767, report_max = 32767, report_db = Float_finite 0,
                  report_samples = 2\<rparr>
   \<and> s_mic_level_sum (snd (mic_level_report_timer_cb test_level_loud)) = 0
   \<and> s_mic_level_samples (snd (mic_level_report_timer_cb test_level_loud)) = 0
   \<and> s_mic_level_max (snd (mic_level_report_timer_cb test_level_loud)) = 0
   \<and> fst (mic_level_report_timer_cb test_level_silent) =
       Mic_level \<lparr>report_avg = 0, report_max = 0, report_db = Float_finite (- 60),
                  report_samples = 2\<rparr>"
proof -
  have z: "s_mic_level_samples hf_startup = 0" by (simp add: hf_startup_def)
  show ?thesis
    using C7_mic_level_report [of hf_startup] C7_mic_level_report [of test_level_loud]
      C7_mic_level_report [of test_level_silent] z test_level_loud_facts test_level_silent_facts
    by simp
qed

subsection \<open>Stopping twice\<close>

text \<open>
  C9.  Stopping what is already stopped changes nothing: \<open>audio_streaming_stop\<close> on a
  module that is not running returns \<open>ESP_OK\<close>, \<open>bt_app_stop_mic_level_monitoring\<close> with
  the monitor off returns, and \<open>stop_microphone_level_monitoring\<close> with the monitoring
  inactive returns \<open>ESP_ERR_INVALID_STATE\<close>, each with the state it was given.  So a
  second stop right after a first one is such a call.
\<close>

theorem C9_stop_idempotent:
  "(\<not> is_running st \<longrightarrow> audio_streaming_stop st = (ESP_OK, st))
   \<and> audio_streaming_stop (snd (audio_streaming_stop st)) = (ESP_OK, snd (audio_streaming_stop st))
   \<and> (\<not> s_mic_level_monitoring s \<longrightarrow> bt_app_stop_mic_level_monitoring s = s)
   \<and> bt_app_stop_mic_level_monitoring (bt_app_stop_mic_level_monitoring s) =
       bt_app_stop_mic_level_monitoring s
   \<and> (\<not> s_mic_monitoring_active c \<longrightarrow>
        stop_microphone_level_monitoring e c = (ESP_ERR_INVALID_STATE, c))
   \<and> stop_microphone_level_monitoring e' (snd (stop_microphone_level_monitoring e c)) =
       (ESP_ERR_INVALID_STATE, snd (stop_microphone_level_monitoring e c))"
proof -
  have a: "\<not> is_running (snd (audio_streaming_stop st))"
    by (simp add: audio_streaming_stop_def Let_def disconnect_from_server_def)
  have b: "\<not> s_mic_level_monitoring (bt_app_stop_mic_level_monitoring s)"
    by (simp add: bt_app_stop_mic_level_monitoring_def Let_def)
  have d: "\<not> s_mic_monitoring_active (snd (stop_microphone_level_monitoring e c))"
    by (simp add: stop_microphone_level_monitoring_def Let_def)
  have a': "audio_streaming_stop x = (ESP_OK, x)" if "\<not> is_running x" for x
    using that by (simp add: audio_streaming_stop_def)
  have b': "bt_app_stop_mic_level_monitoring x = x" if "\<not> s_mic_level_monitoring x" for x
    using that by (simp add: bt_app_stop_mic_level_monitoring_def)
  have d': "stop_microphone_level_monitoring y x = (ESP_ERR_INVALID_STATE, x)"
    if "\<not> s_mic_monitoring_active x" for x y
    using that by (simp add: stop_microphone_level_monitoring_def)
  show ?thesis using a' [OF a] b' [OF b] d' [OF d] a' b' d' by blast
qed

text \<open>
  C9 on a module that was initialised and never started, on one that was connected and
  is stopped twice, on the level monitor at startup and on an inactive call simulation.
\<close>

theorem C9_stop_idempotent_witness:
  "\<not> is_running (audio_streaming_init test_config)
   \<and> audio_streaming_stop (audio_streaming_init test_config) =
       (ESP_OK, audio_streaming_init test_config)
   \<and> audio_streaming_stop (snd (audio_streaming_stop test_stream_connected)) =
       (ESP_OK, snd (audio_streaming_stop test_stream_connected))
   \<and> \<not> s_mic_level_monitoring hf_startup
   \<and> bt_app_stop_mic_level_monitoring hf_startup = hf_startup
   \<and> \<not> s_mic_monitoring_active test_call_sim
   \<and> stop_microphone_level_monitoring True test_call_sim = (ESP_ERR_INVALID_STATE, test_call_sim)"
proof -
  have a: "\<not> is_running (audio_streaming_init test_config)"
    by (simp add: audio_streaming_init_def)
  have b: "\<not> s_mic_level_monitoring hf_startup" by (simp add: hf_startup_def)
  have d: "\<not> s_mic_monitoring_active test_call_sim" by (simp add: test_call_sim_def)
  show ?thesis
    using C9_stop_idempotent [where st = "audio_streaming_init test_config" and s = hf_startup
        and c = test_call_sim and e = True]
      C9_stop_idempotent [where st = test_stream_connected] a b d
    by simp
qed

subsection \<open>The timing gate of the pacing generator\<close>

lemma tick_too_early:
  assumes "s_audio_code s = ESP_HF_AUDIO_STATE_CONNECTED \<or> s_audio_code s = ESP_HF_AUDIO_STATE_CONNECTED_MSBC"
    and "last_frame_time s \<noteq> 0" and "tick_now env - last_frame_time s < 7500"
  shows "bt_app_send_data_task env s =
     (Tick_too_early,
      s\<lparr>send_counter := send_counter s + 1, s_now_enter_time := tick_now env,
        s_us_duration := tick_now env - s_last_enter_time s\<rparr>)"
  using assms by (auto simp: bt_app_send_data_task_def Let_def PCM_BLOCK_DURATION_US_def)

lemma tick_synthesized:
  assumes "frame_synthesized (fst (bt_app_send_data_task env s))"
  shows "\<not> (last_frame_time s \<noteq> 0 \<and> tick_now env - last_frame_time s < 7500)
       \<and> last_frame_time (snd (bt_app_send_data_task env s)) = tick_now env"
  using assms
  by (auto simp: bt_app_send_data_task_def Let_def PCM_BLOCK_DURATION_US_def
      split: if_splits option.splits)

lemma pacing_run_bound:
  assumes "periodic t envs" and "t \<noteq> 0" and "unat t + 4000 * length envs < 2 ^ 64"
  shows "length (filter frame_synthesized (fst (pacing_run envs s))) \<le>
         (if last_frame_time s \<noteq> 0 \<and> t - last_frame_time s < 7500
          then length envs div 2 else (length envs + 1) div 2)"
  using assms
proof (induction envs arbitrary: t s)
  case Nil
  then show ?case by simp
next
  case (Cons env envs)
  obtain r s1 where st: "bt_app_send_data_task env s = (r, s1)"
    by (cases "bt_app_send_data_task env s") auto
  have now: "tick_now env = t" and per: "periodic (t + 4000) envs"
    using Cons.prems(1) by (simp_all add: PCM_GENERATOR_TICK_US_def)
  have u: "unat (t + 4000) = unat t + 4000"
    using Cons.prems(3) by (simp add: unat_word_ariths)
  then have nz: "t + 4000 \<noteq> 0" by (metis add_is_0 unat_0 zero_neq_numeral)
  have room: "unat (t + 4000) + 4000 * length envs < 2 ^ 64"
    using Cons.prems(3) u by simp
  note ih = Cons.IH [OF per nz room, of s1]
  have run: "length (filter frame_synthesized (fst (pacing_run (env # envs) s))) =
      (if frame_synthesized r then 1 else 0) +
      length (filter frame_synthesized (fst (pacing_run envs s1)))"
    by (simp add: st split_beta)
  show ?case
  proof (cases "frame_synthesized r")
    case False
    have "length (filter frame_synthesized (fst (pacing_run envs s1))) \<le> (length envs + 1) div 2"
      using ih by (auto split: if_splits)
    then show ?thesis using False unfolding run by (auto split: if_splits)
  next
    case True
    from tick_synthesized [of env s] st True now
    have open_gate: "\<not> (last_frame_time s \<noteq> 0 \<and> t - last_frame_time s < 7500)"
      and l: "last_frame_time s1 = t" by simp_all
    have "t + 4000 - last_frame_time s1 = 4000" by (simp add: l)
    then have "length (filter frame_synthesized (fst (pacing_run envs s1))) \<le> length envs div 2"
      using ih l Cons.prems(2) by simp
    then show ?thesis using True open_gate unfolding run by auto
  qed
qed

lemma pacing_run_100:
  assumes "periodic t envs" and "length envs = 100" and "unat t + 400000 < 2 ^ 64"
  shows "length (filter frame_synthesized (fst (pacing_run envs s))) \<le> 51"
proof -
  obtain env rest where e: "envs = env # rest" using assms(2) by (cases envs) auto
  obtain r s1 where st: "bt_app_send_data_task env s = (r, s1)"
    by (cases "bt_app_send_data_task env s") auto
  have per: "periodic (t + 4000) rest" using assms(1) e by (simp add: PCM_GENERATOR_TICK_US_def)
  have u: "unat (t + 4000) = unat t + 4000"
    using assms(3) by (simp add: unat_word_ariths)
  then have nz: "t + 4000 \<noteq> 0" by (metis add_is_0 unat_0 zero_neq_numeral)
  have len: "length rest = 99" using assms(2) e by simp
  have room: "unat (t + 4000) + 4000 * length rest < 2 ^ 64"
    using assms(3) u len by simp
  have "length (filter frame_synthesized (fst (pacing_run rest s1))) \<le> 50"
    using pacing_run_bound [OF per nz room, of s1] len by (auto split: if_splits)
  then show ?thesis by (simp add: e st split_beta)
qed


lemma tick_last_frame:
  "last_frame_time (snd (bt_app_send_data_task env s)) = last_frame_time s
   \<or> last_frame_time (snd (bt_app_send_data_task env s)) = tick_now env"
  by (auto simp: bt_app_send_data_task_def Let_def split: option.splits)

lemma pacing_run_last_frame:
  assumes "last_frame_time s \<noteq> 0 \<and> lo \<le> unat (last_frame_time s) \<and> unat (last_frame_time s) \<le> hi"
    and "\<forall>m\<in>set mid. tick_now m \<noteq> 0 \<and> lo \<le> unat (tick_now m) \<and> unat (tick_now m) \<le> hi"
  shows "last_frame_time (snd (pacing_run mid s)) \<noteq> 0
       \<and> lo \<le> unat (last_frame_time (snd (pacing_run mid s)))
       \<and> unat (last_frame_time (snd (pacing_run mid s))) \<le> hi"
  using assms
proof (induction mid arbitrary: s)
  case Nil
  then show ?case by simp
next
  case (Cons env mid)
  let ?s1 = "snd (bt_app_send_data_task env s)"
  have "last_frame_time ?s1 \<noteq> 0 \<and> lo \<le> unat (last_frame_time ?s1) \<and> unat (last_frame_time ?s1) \<le> hi"
    using tick_last_frame [of env s] Cons.prems by auto
  moreover have "\<forall>m\<in>set mid. tick_now m \<noteq> 0 \<and> lo \<le> unat (tick_now m) \<and> unat (tick_now m) \<le> hi"
    using Cons.prems(2) by simp
  ultimately have "last_frame_time (snd (pacing_run mid ?s1)) \<noteq> 0
       \<and> lo \<le> unat (last_frame_time (snd (pacing_run mid ?s1)))
       \<and> unat (last_frame_time (snd (pacing_run mid ?s1))) \<le> hi"
    by (rule Cons.IH)
  then show ?case by (simp add: split_beta)
qed

lemma no_frame_soon_after_frame:
  assumes synth: "frame_synthesized (fst (bt_app_send_data_task e1 s1))"
    and nz: "tick_now e1 \<noteq> 0"
    and mid: "\<forall>m\<in>set mid. tick_now m \<noteq> 0 \<and> unat (tick_now e1) \<le> unat (tick_now m)
                \<and> unat (tick_now m) \<le> unat (tick_now e2)"
    and le: "unat (tick_now e1) \<le> unat (tick_now e2)"
    and soon: "unat (tick_now e2) - unat (tick_now e1) < 7500"
  shows "\<not> frame_synthesized
           (fst (bt_app_send_data_task e2 (snd (pacing_run mid (snd (bt_app_send_data_task e1 s1))))))"
proof
  let ?s2 = "snd (bt_app_send_data_task e1 s1)"
  let ?s3 = "snd (pacing_run mid ?s2)"
  assume again: "frame_synthesized (fst (bt_app_send_data_task e2 ?s3))"
  have l2: "last_frame_time ?s2 = tick_now e1"
    using tick_synthesized [OF synth] by simp
  have "last_frame_time ?s2 \<noteq> 0 \<and> unat (tick_now e1) \<le> unat (last_frame_time ?s2)
      \<and> unat (last_frame_time ?s2) \<le> unat (tick_now e2)"
    using l2 nz le by simp
  from pacing_run_last_frame [OF this mid]
  have l3: "last_frame_time ?s3 \<noteq> 0" "unat (tick_now e1) \<le> unat (last_frame_time ?s3)"
    "unat (last_frame_time ?s3) \<le> unat (tick_now e2)" by simp_all
  have "unat (tick_now e2 - last_frame_time ?s3) = unat (tick_now e2) - unat (last_frame_time ?s3)"
    using l3(3) by (simp add: unat_sub word_le_nat_alt)
  then have "unat (tick_now e2 - last_frame_time ?s3) < unat (7500 :: 64 word)"
    using l3(2) soon by simp
  then have "tick_now e2 - last_frame_time ?s3 < 7500"
    by (simp only: word_less_nat_alt)
  with tick_synthesized [OF again] l3(1) show False by simp
qed

text \<open>
  C5.  A wake-up of the generator that comes less than the frame duration after the
  last pass that went through the timing gate builds no frame: for a narrowband link
  less than 7500 microseconds, for a wideband link less than 3750 microseconds, and in
  fact less than 7500 microseconds for the wideband link too, since the code takes
  \<open>PCM_BLOCK_DURATION_US\<close> as the interval for both.  Such a pass only counts itself and
  stores its clock readings.  In particular, after a pass that built a frame, a later
  pass whose clock reading is less than 7500 microseconds ahead builds none, whatever
  passes lie between (their clock readings not zero and between the two).  Hence, for 100 consecutive wake-ups whose clock readings
  are exactly 4000 microseconds apart (the clock not wrapping), from any state of the
  generator and whatever the allocator and the ring buffer do, at most
  \<open>100 * 4000 div 7500 = 53\<close> passes build a silence frame (at most 51 even), so never
  every pass.
\<close>

theorem C5_pacing_gate:
  assumes "periodic t envs" and "length envs = 100" and "unat t + 400000 < 2 ^ 64"
  shows
    "(s_audio_code s' = ESP_HF_AUDIO_STATE_CONNECTED \<and> last_frame_time s' \<noteq> 0
        \<and> tick_now env - last_frame_time s' < 7500 \<longrightarrow>
      bt_app_send_data_task env s' =
        (Tick_too_early,
         s'\<lparr>send_counter := send_counter s' + 1, s_now_enter_time := tick_now env,
            s_us_duration := tick_now env - s_last_enter_time s'\<rparr>))
     \<and> (s_audio_code s' = ESP_HF_AUDIO_STATE_CONNECTED_MSBC \<and> last_frame_time s' \<noteq> 0
        \<and> tick_now env - last_frame_time s' < 3750 \<longrightarrow>
      bt_app_send_data_task env s' =
        (Tick_too_early,
         s'\<lparr>send_counter := send_counter s' + 1, s_now_enter_time := tick_now env,
            s_us_duration := tick_now env - s_last_enter_time s'\<rparr>))
     \<and> (s_audio_code s' = ESP_HF_AUDIO_STATE_CONNECTED_MSBC \<and> last_frame_time s' \<noteq> 0
        \<and> tick_now env - last_frame_time s' < 7500 \<longrightarrow>
      bt_app_send_data_task env s' =
        (Tick_too_early,
         s'\<lparr>send_counter := send_counter s' + 1, s_now_enter_time := tick_now env,
            s_us_duration := tick_now env - s_last_enter_time s'\<rparr>))
     \<and> (frame_synthesized (fst (bt_app_send_data_task ea sa)) \<and> tick_now ea \<noteq> 0
        \<and> (\<forall>m\<in>set mid. tick_now m \<noteq> 0 \<and> unat (tick_now ea) \<le> unat (tick_now m)
                \<and> unat (tick_now m) \<le> unat (tick_now eb))
        \<and> unat (tick_now ea) \<le> unat (tick_now eb)
        \<and> unat (tick_now eb) - unat (tick_now ea) < 7500 \<longrightarrow>
      \<not> frame_synthesized
          (fst (bt_app_send_data_task eb
                  (snd (pacing_run mid (snd (bt_app_send_data_task ea sa)))))))
     \<and> length (filter frame_synthesized (fst (pacing_run envs s)))
           \<le> 100 * PCM_GENERATOR_TICK_US div PCM_BLOCK_DURATION_US
     \<and> 100 * PCM_GENERATOR_TICK_US div PCM_BLOCK_DURATION_US = 53
     \<and> length (filter frame_synthesized (fst (pacing_run envs s))) \<le> 51
     \<and> length (filter frame_synthesized (fst (pacing_run envs s))) < length envs"
proof -
  have half: "tick_now env - last_frame_time s' < 7500"
    if "tick_now env - last_frame_time s' < 3750"
  proof -
    have "(3750 :: 64 word) < 7500" by simp
    with that show ?thesis by (rule less_trans)
  qed
  have c: "100 * PCM_GENERATOR_TICK_US div PCM_BLOCK_DURATION_US = 53"
    by (simp add: PCM_GENERATOR_TICK_US_def PCM_BLOCK_DURATION_US_def)
  have b: "length (filter frame_synthesized (fst (pacing_run envs s))) \<le> 51"
    using assms by (rule pacing_run_100)
  have d: "frame_synthesized (fst (bt_app_send_data_task ea sa)) \<and> tick_now ea \<noteq> 0
        \<and> (\<forall>m\<in>set mid. tick_now m \<noteq> 0 \<and> unat (tick_now ea) \<le> unat (tick_now m)
                \<and> unat (tick_now m) \<le> unat (tick_now eb))
        \<and> unat (tick_now ea) \<le> unat (tick_now eb)
        \<and> unat (tick_now eb) - unat (tick_now ea) < 7500 \<longrightarrow>
      \<not> frame_synthesized
          (fst (bt_app_send_data_task eb
                  (snd (pacing_run mid (snd (bt_app_send_data_task ea sa))))))"
    using no_frame_soon_after_frame [of ea sa mid eb] by blast
  have g: "(s_audio_code s' = ESP_HF_AUDIO_STATE_CONNECTED \<and> last_frame_time s' \<noteq> 0
        \<and> tick_now env - last_frame_time s' < 7500 \<longrightarrow>
      bt_app_send_data_task env s' =
        (Tick_too_early,
         s'\<lparr>send_counter := send_counter s' + 1, s_now_enter_time := tick_now env,
            s_us_duration := tick_now env - s_last_enter_time s'\<rparr>))
     \<and> (s_audio_code s' = ESP_HF_AUDIO_STATE_CONNECTED_MSBC \<and> last_frame_time s' \<noteq> 0
        \<and> tick_now env - last_frame_time s' < 3750 \<longrightarrow>
      bt_app_send_data_task env s' =
        (Tick_too_early,
         s'\<lparr>send_counter := send_counter s' + 1, s_now_enter_time := tick_now env,
            s_us_duration := tick_now env - s_last_enter_time s'\<rparr>))
     \<and> (s_audio_code s' = ESP_HF_AUDIO_STATE_CONNECTED_MSBC \<and> last_frame_time s' \<noteq> 0
        \<and> tick_now env - last_frame_time s' < 7500 \<longrightarrow>
      bt_app_send_data_task env s' =
        (Tick_too_early,
         s'\<lparr>send_counter := send_counter s' + 1, s_now_enter_time := tick_now env,
            s_us_duration := tick_now env - s_last_enter_time s'\<rparr>))"
    using tick_too_early [of s' env] half by auto
  have h: "length (filter frame_synthesized (fst (pacing_run envs s))) < length envs"
    using b assms(2) by simp
  show ?thesis
    unfolding c using g d b h by (intro conjI) simp_all
qed

lemma test_ticks_periodic:
  "periodic (14000 + 4000 * of_nat k) (map test_tick [k..<k + n])"
proof (induction n arbitrary: k)
  case 0
  then show ?case by simp
next
  case (Suc n)
  have e: "[k..<k + Suc n] = k # [Suc k..<Suc k + n]"
    by (simp add: upt_conv_Cons)
  have h: "tick_now (test_tick k) = 14000 + 4000 * of_nat k"
    by (simp add: test_tick_def)
  have n: "(14000 + 4000 * of_nat k + of_nat PCM_GENERATOR_TICK_US :: 64 word) =
      14000 + 4000 * of_nat (Suc k)"
    by (simp add: PCM_GENERATOR_TICK_US_def algebra_simps)
  have r: "periodic (14000 + 4000 * of_nat k + of_nat PCM_GENERATOR_TICK_US)
      (map test_tick [Suc k..<Suc k + n])"
    unfolding n by (rule Suc.IH)
  show ?case unfolding e list.map periodic.simps using h r by blast
qed

text \<open>
  C5 on a wideband generator whose last frame went out at 10000, woken at 14000,
  18000, ...
\<close>

theorem C5_pacing_gate_witness:
  "periodic 14000 test_ticks \<and> length test_ticks = 100
   \<and> unat (14000 :: 64 word) + 400000 < 2 ^ 64
   \<and> s_audio_code test_generator = ESP_HF_AUDIO_STATE_CONNECTED_MSBC
   \<and> last_frame_time test_generator \<noteq> 0
   \<and> tick_now (test_tick 0) - last_frame_time test_generator < 7500
   \<and> fst (bt_app_send_data_task (test_tick 0) test_generator) = Tick_too_early
   \<and> fst (bt_app_send_data_task (test_tick 0) (test_generator\<lparr>last_frame_time := 0\<rparr>)) =
       Tick_pushed True
   \<and> \<not> frame_synthesized
         (fst (bt_app_send_data_task (test_tick 1)
                 (snd (bt_app_send_data_task (test_tick 0)
                         (test_generator\<lparr>last_frame_time := 0\<rparr>)))))
   \<and> length (filter frame_synthesized (fst (pacing_run test_ticks test_generator))) \<le> 53"
proof -
  have p: "periodic 14000 test_ticks"
    using test_ticks_periodic [of 0 100] by (simp add: test_ticks_def)
  have l: "length test_ticks = 100" by (simp add: test_ticks_def)
  have u: "unat (14000 :: 64 word) + 400000 < 2 ^ 64" by simp
  have g: "s_audio_code test_generator = ESP_HF_AUDIO_STATE_CONNECTED_MSBC"
    "last_frame_time test_generator \<noteq> 0"
    "tick_now (test_tick 0) - last_frame_time test_generator < 7500"
    by (simp_all add: test_generator_def test_tick_def bt_app_send_data_def)
  have f: "fst (bt_app_send_data_task (test_tick 0) (test_generator\<lparr>last_frame_time := 0\<rparr>)) =
       Tick_pushed True"
    by (simp add: bt_app_send_data_task_def test_generator_def test_tick_def bt_app_send_data_def
        hf_startup_def Let_def WBS_PCM_INPUT_DATA_SIZE_def WBS_PCM_SAMPLING_RATE_KHZ_def
        PCM_BLOCK_DURATION_US_def BYTES_PER_SAMPLE_def ESP_HFP_RINGBUF_SIZE_def)
  have t: "tick_now (test_tick 0) \<noteq> 0" "unat (tick_now (test_tick 0)) \<le> unat (tick_now (test_tick 1))"
    "unat (tick_now (test_tick 1)) - unat (tick_now (test_tick 0)) < 7500"
    by (simp_all add: test_tick_def)
  show ?thesis
    using C5_pacing_gate [OF p l u, where s' = test_generator and env = "test_tick 0"
        and s = test_generator and ea = "test_tick 0" and eb = "test_tick 1" and mid = "[]"
        and sa = "test_generator\<lparr>last_frame_time := 0\<rparr>"] p l u g f t
    by simp
qed

subsection \<open>Retries of the audio link\<close>

lemma monitor_pass_request:
  "fst (monitor_pass a l) \<longleftrightarrow>
     \<not> a \<and> counter l mod 15 = 0 \<and> audio_connection_attempts l < 3"
  by (simp add: monitor_pass_def Let_def)

lemma monitor_pass_attempts:
  "audio_connection_attempts (snd (monitor_pass a l)) =
     (if a then (if was_connected l then audio_connection_attempts l else 0)
      else if counter l mod 15 = 0 \<and> audio_connection_attempts l < 3
        then audio_connection_attempts l + 1
      else audio_connection_attempts l)"
  by (simp add: monitor_pass_def Let_def)

lemma monitor_pass_counter: "counter (snd (monitor_pass a l)) = counter l + 1"
  by (simp add: monitor_pass_def Let_def)

lemma monitor_pass_was_connected: "was_connected (snd (monitor_pass a l)) = a"
  by (simp add: monitor_pass_def Let_def)

lemma monitor_run_append:
  "monitor_run (as @ bs) l =
     (fst (monitor_run as l) @ fst (monitor_run bs (snd (monitor_run as l))),
      snd (monitor_run bs (snd (monitor_run as l))))"
  by (induction as arbitrary: l) (simp_all add: split_beta)

lemma monitor_run_given_up:
  assumes "3 \<le> audio_connection_attempts l"
  shows "fst (monitor_run (replicate n False) l) = replicate n False
     \<and> audio_connection_attempts (snd (monitor_run (replicate n False) l)) = audio_connection_attempts l"
  using assms
proof (induction n arbitrary: l)
  case 0
  then show ?case by simp
next
  case (Suc n)
  have r: "\<not> fst (monitor_pass False l)"
    using Suc.prems by (simp add: monitor_pass_request)
  have a: "audio_connection_attempts (snd (monitor_pass False l)) = audio_connection_attempts l"
    using Suc.prems by (simp add: monitor_pass_attempts)
  from Suc.IH [of "snd (monitor_pass False l)"] a Suc.prems r
  show ?case by (simp add: split_beta)
qed

lemma monitor_pass_down:
  "monitor_pass False \<lparr>counter = c, audio_connection_attempts = k, was_connected = w,
       stable_connection_counter = st\<rparr> =
     (c mod 15 = 0 \<and> k < 3,
      \<lparr>counter = c + 1,
       audio_connection_attempts = (if c mod 15 = 0 \<and> k < 3 then k + 1 else k),
       was_connected = False, stable_connection_counter = 0\<rparr>)"
  by (simp add: monitor_pass_def Let_def)

lemma monitor_run_31:
  "monitor_run (replicate 31 False) monitor_task_entry =
     ([True] @ replicate 14 False @ [True] @ replicate 14 False @ [True],
      \<lparr>counter = 31, audio_connection_attempts = 3, was_connected = False,
       stable_connection_counter = 0\<rparr>)"
  by (simp add: monitor_task_entry_def monitor_pass_down eval_nat_numeral)


lemma monitor_pass_stable:
  "stable_connection_counter (snd (monitor_pass a l)) =
     (if a then stable_connection_counter l + 1 else 0)"
  by (simp add: monitor_pass_def Let_def)

lemma monitor_pass_up:
  "monitor_pass True \<lparr>counter = c, audio_connection_attempts = k, was_connected = w,
       stable_connection_counter = st\<rparr> =
     (False,
      \<lparr>counter = c + 1, audio_connection_attempts = (if w then k else 0),
       was_connected = True, stable_connection_counter = st + 1\<rparr>)"
  by (simp add: monitor_pass_def Let_def)

lemma monitor_pass_settled:
  assumes "was_connected l \<longrightarrow> audio_connection_attempts l = 0"
  shows "(was_connected (snd (monitor_pass a l)) \<longrightarrow>
            audio_connection_attempts (snd (monitor_pass a l)) = 0)
       \<and> (a \<longrightarrow> audio_connection_attempts (snd (monitor_pass a l)) = 0)"
  using assms by (simp add: monitor_pass_was_connected monitor_pass_attempts)

lemma monitor_run_settled:
  assumes "was_connected l \<longrightarrow> audio_connection_attempts l = 0"
  shows "was_connected (snd (monitor_run as l)) \<longrightarrow>
           audio_connection_attempts (snd (monitor_run as l)) = 0"
  using assms
proof (induction as arbitrary: l)
  case Nil
  then show ?case by simp
next
  case (Cons a as)
  have "was_connected (snd (monitor_pass a l)) \<longrightarrow>
          audio_connection_attempts (snd (monitor_pass a l)) = 0"
    using monitor_pass_settled [OF Cons.prems] by blast
  then have "was_connected (snd (monitor_run as (snd (monitor_pass a l)))) \<longrightarrow>
          audio_connection_attempts (snd (monitor_run as (snd (monitor_pass a l)))) = 0"
    by (rule Cons.IH)
  then show ?case by (simp add: split_beta)
qed

lemma monitor_run_was_connected:
  "was_connected (snd (monitor_run as l)) = (if as = [] then was_connected l else last as)"
  by (induction as arbitrary: l) (simp_all add: split_beta monitor_pass_was_connected)

lemma monitor_run_reset_on_up:
  "audio_connection_attempts (snd (monitor_run (as @ [True]) monitor_task_entry)) = 0"
proof -
  have "was_connected monitor_task_entry \<longrightarrow> audio_connection_attempts monitor_task_entry = 0"
    by (simp add: monitor_task_entry_def)
  from monitor_run_settled [OF this, of "as @ [True]"] show ?thesis
    by (simp add: monitor_run_was_connected)
qed

lemma monitor_run_up_down_up:
  "monitor_run (replicate 31 False @ [True] @ replicate 44 False @ [True]) monitor_task_entry =
     ([True] @ replicate 14 False @ [True] @ replicate 14 False @ [True] @ [False] @
      replicate 13 False @ [True] @ replicate 14 False @ [True] @ replicate 14 False @ [True] @
      [False],
      \<lparr>counter = 77, audio_connection_attempts = 0, was_connected = True,
       stable_connection_counter = 1\<rparr>)"
  by (simp add: monitor_task_entry_def monitor_pass_down monitor_pass_up eval_nat_numeral)

text \<open>
  C6.  A pass of the monitor loop calls \<open>esp_hf_ag_audio_connect\<close> exactly when the audio
  link is down, the pass counter is a multiple of 15 and fewer than 3 attempts have been
  made; the call adds one to the attempt counter, and nothing else adds to it.  Every
  pass records in \<open>was_connected\<close> the state of the link it read, and a pass that finds
  the link up after it was down sets the attempt counter to 0: whatever the link did
  since the task was entered, the attempt counter is 0 after every pass that finds the
  link up.  Once 3 attempts have been made and for as long as the link stays down, no
  pass, however many follow, makes the call again, and the counter stays where it is;
  only something outside the loop (a command that starts a new monitor task or requests
  the audio link itself) will.  From the entry of the task with the link down
  throughout, the calls are made in passes 0, 15 and 30 and the attempt counter ends at
  3.
\<close>

theorem C6_audio_connect_retries:
  "(fst (monitor_pass a l) \<longleftrightarrow>
      \<not> a \<and> counter l mod 15 = 0 \<and> audio_connection_attempts l < 3)
   \<and> (fst (monitor_pass a l) \<longrightarrow>
        audio_connection_attempts (snd (monitor_pass a l)) = audio_connection_attempts l + 1)
   \<and> (\<not> a \<and> \<not> fst (monitor_pass a l) \<longrightarrow>
        audio_connection_attempts (snd (monitor_pass a l)) = audio_connection_attempts l)
   \<and> counter (snd (monitor_pass a l)) = counter l + 1
   \<and> (a \<and> \<not> was_connected l \<longrightarrow> audio_connection_attempts (snd (monitor_pass a l)) = 0)
   \<and> (a \<and> was_connected l \<longrightarrow>
        audio_connection_attempts (snd (monitor_pass a l)) = audio_connection_attempts l)
   \<and> was_connected (snd (monitor_pass a l)) = a
   \<and> stable_connection_counter (snd (monitor_pass a l)) =
       (if a then stable_connection_counter l + 1 else 0)
   \<and> was_connected (snd (monitor_run as monitor_task_entry)) =
       (if as = [] then False else last as)
   \<and> (was_connected (snd (monitor_run as monitor_task_entry)) \<longrightarrow>
        audio_connection_attempts (snd (monitor_run as monitor_task_entry)) = 0)
   \<and> audio_connection_attempts (snd (monitor_run (as @ [True]) monitor_task_entry)) = 0
   \<and> (3 \<le> audio_connection_attempts l \<longrightarrow>
        fst (monitor_run (replicate n False) l) = replicate n False
        \<and> audio_connection_attempts (snd (monitor_run (replicate n False) l)) =
            audio_connection_attempts l)
   \<and> fst (monitor_run (replicate (31 + n) False) monitor_task_entry) =
       [True] @ replicate 14 False @ [True] @ replicate 14 False @ [True] @ replicate n False
   \<and> audio_connection_attempts (snd (monitor_run (replicate (31 + n) False) monitor_task_entry)) = 3"
proof -
  let ?l31 = "\<lparr>counter = 31, audio_connection_attempts = 3, was_connected = False,
       stable_connection_counter = 0\<rparr>"
  have g: "fst (monitor_run (replicate n False) ?l31) = replicate n False
     \<and> audio_connection_attempts (snd (monitor_run (replicate n False) ?l31)) = 3"
    using monitor_run_given_up [of ?l31 n] by simp
  have "replicate (31 + n) False = replicate 31 False @ replicate n False"
    by (simp only: replicate_add)
  then have s: "fst (monitor_run (replicate (31 + n) False) monitor_task_entry) =
       [True] @ replicate 14 False @ [True] @ replicate 14 False @ [True] @ replicate n False"
    and t: "audio_connection_attempts (snd (monitor_run (replicate (31 + n) False) monitor_task_entry)) = 3"
    using g by (simp_all only: monitor_run_append monitor_run_31 fst_conv snd_conv append_assoc)
  have e: "was_connected monitor_task_entry \<longrightarrow> audio_connection_attempts monitor_task_entry = 0"
    "was_connected monitor_task_entry = False"
    by (simp_all add: monitor_task_entry_def)
  have w: "was_connected (snd (monitor_run as monitor_task_entry)) =
       (if as = [] then False else last as)"
    using monitor_run_was_connected [of as monitor_task_entry] e(2) by simp
  have p: "(fst (monitor_pass a l) \<longleftrightarrow>
      \<not> a \<and> counter l mod 15 = 0 \<and> audio_connection_attempts l < 3)
   \<and> (fst (monitor_pass a l) \<longrightarrow>
        audio_connection_attempts (snd (monitor_pass a l)) = audio_connection_attempts l + 1)
   \<and> (\<not> a \<and> \<not> fst (monitor_pass a l) \<longrightarrow>
        audio_connection_attempts (snd (monitor_pass a l)) = audio_connection_attempts l)
   \<and> counter (snd (monitor_pass a l)) = counter l + 1
   \<and> (a \<and> \<not> was_connected l \<longrightarrow> audio_connection_attempts (snd (monitor_pass a l)) = 0)
   \<and> (a \<and> was_connected l \<longrightarrow>
        audio_connection_attempts (snd (monitor_pass a l)) = audio_connection_attempts l)"
    using monitor_pass_request [of a l] monitor_pass_attempts [of a l] monitor_pass_counter [of a l]
    by auto
  have q: "3 \<le> audio_connection_attempts l \<longrightarrow>
        fst (monitor_run (replicate n False) l) = replicate n False
        \<and> audio_connection_attempts (snd (monitor_run (replicate n False) l)) =
            audio_connection_attempts l"
    using monitor_run_given_up [of l n] by blast
  show ?thesis
    using p monitor_pass_was_connected [of a l] monitor_pass_stable [of a l] w
      monitor_run_settled [OF e(1), of as] monitor_run_reset_on_up [of as] q s t
    by (elim conjE, intro conjI) assumption+
qed

text \<open>
  C6 on a task that sees the link down for 40 passes and then up: three requests, the
  counter at 3, and back to 0 at the pass that finds the link up; and on a task that
  sees the link down for 31 passes, up for one, down for 44 and up again: after the
  first reset the requests resume in passes 45, 60 and 75, and the second reset follows.
\<close>

theorem C6_audio_connect_retries_witness:
  "fst (monitor_pass False monitor_task_entry)
   \<and> audio_connection_attempts (snd (monitor_pass False monitor_task_entry)) = 1
   \<and> fst (monitor_run (replicate 40 False) monitor_task_entry) =
       [True] @ replicate 14 False @ [True] @ replicate 14 False @ [True] @ replicate 9 False
   \<and> audio_connection_attempts (snd (monitor_run (replicate 40 False) monitor_task_entry)) = 3
   \<and> audio_connection_attempts
        (snd (monitor_pass True (snd (monitor_run (replicate 40 False) monitor_task_entry)))) = 0
   \<and> fst (monitor_run (replicate 31 False @ [True] @ replicate 44 False @ [True])
          monitor_task_entry) =
       [True] @ replicate 14 False @ [True] @ replicate 14 False @ [True] @ [False] @
       replicate 13 False @ [True] @ replicate 14 False @ [True] @ replicate 14 False @ [True] @
       [False]
   \<and> audio_connection_attempts
        (snd (monitor_run ((replicate 31 False @ [True] @ replicate 44 False) @ [True])
           monitor_task_entry)) = 0"
proof -
  let ?l = "snd (monitor_run (replicate 40 False) monitor_task_entry)"
  have e: "counter monitor_task_entry mod 15 = 0" "audio_connection_attempts monitor_task_entry < 3"
    "audio_connection_attempts monitor_task_entry = 0"
    by (simp_all add: monitor_task_entry_def)
  have w: "\<not> was_connected ?l"
    by (simp add: monitor_run_was_connected)
  have n: "31 + 9 = (40 :: nat)" by simp
  have u: "fst (monitor_run (replicate 31 False @ [True] @ replicate 44 False @ [True])
          monitor_task_entry) =
       [True] @ replicate 14 False @ [True] @ replicate 14 False @ [True] @ [False] @
       replicate 13 False @ [True] @ replicate 14 False @ [True] @ replicate 14 False @ [True] @
       [False]"
    by (simp only: monitor_run_up_down_up fst_conv)
  have a: "audio_connection_attempts
        (snd (monitor_run ((replicate 31 False @ [True] @ replicate 44 False) @ [True])
           monitor_task_entry)) = 0"
    using C6_audio_connect_retries [where as = "replicate 31 False @ [True] @ replicate 44 False"]
    by blast
  have b: "fst (monitor_pass False monitor_task_entry)
   \<and> audio_connection_attempts (snd (monitor_pass False monitor_task_entry)) = 1
   \<and> fst (monitor_run (replicate 40 False) monitor_task_entry) =
       [True] @ replicate 14 False @ [True] @ replicate 14 False @ [True] @ replicate 9 False
   \<and> audio_connection_attempts (snd (monitor_run (replicate 40 False) monitor_task_entry)) = 3
   \<and> audio_connection_attempts
        (snd (monitor_pass True (snd (monitor_run (replicate 40 False) monitor_task_entry)))) = 0"
    using C6_audio_connect_retries [where a = False and l = monitor_task_entry and n = 9]
      C6_audio_connect_retries [where a = True and l = ?l and n = 0] e w
    by (simp add: n)
  show ?thesis using b u a by blast
qed

end
